theory Spec2Isabelle
  imports Main "HOL-Library.Word"
begin

text \<open>
  A shallow embedding of \<^verbatim>\<open>playground/cudaGraphTest.cu\<close>: the parser of the memory
  analysis report, \<^verbatim>\<open>MemRedAnalysisParser\<close>, and the annotation of a captured graph,
  \<^verbatim>\<open>analyzeGraph\<close>. Line numbers are those of that file.
\<close>

section \<open>The input stream\<close>

text \<open>
  \<^verbatim>\<open>std::ifstream in(ANALYSIS_FILE.data())\<close> is modelled by the characters still to be read
  and the two state bits the parser can observe. \<^verbatim>\<open>badbit\<close> is never set when reading from
  a fixed text. The file system is a parameter: \<open>None\<close> is a file that cannot be opened.
\<close>

record istream =
  buf :: string
  eofbit :: bool
  failbit :: bool

definition good :: "istream \<Rightarrow> bool" where
  "good s = (\<not> eofbit s \<and> \<not> failbit s)"

text \<open>\<^verbatim>\<open>operator bool\<close> of a stream, the test in \<^verbatim>\<open>while (in)\<close> and \<^verbatim>\<open>!in\<close>: not \<^verbatim>\<open>fail()\<close>.\<close>

definition ok :: "istream \<Rightarrow> bool" where
  "ok s = (\<not> failbit s)"

text \<open>Opening a file that is missing or unreadable sets \<^verbatim>\<open>failbit\<close>; nothing else happens.\<close>

definition ifstream :: "string option \<Rightarrow> istream" where
  "ifstream file =
     (case file of
        None \<Rightarrow> \<lparr>buf = [], eofbit = False, failbit = True\<rparr>
      | Some text \<Rightarrow> \<lparr>buf = text, eofbit = False, failbit = False\<rparr>)"

text \<open>\<^verbatim>\<open>isspace\<close> and \<^verbatim>\<open>isdigit\<close> in the classic locale.\<close>

definition isspace :: "char \<Rightarrow> bool" where
  "isspace c = (of_char c = (32::int) \<or> (9 \<le> (of_char c :: int) \<and> (of_char c :: int) \<le> 13))"

definition isdigit :: "char \<Rightarrow> bool" where
  "isdigit c = (48 \<le> (of_char c :: int) \<and> (of_char c :: int) \<le> 57)"

text \<open>
  \<^verbatim>\<open>in.read(&ch, 1)\<close>, an unformatted input function. Its sentry skips no whitespace; on a
  stream that is not \<^verbatim>\<open>good()\<close> it sets \<^verbatim>\<open>failbit\<close> and reads nothing; at end of input
  it sets \<^verbatim>\<open>eofbit | failbit\<close>. \<open>None\<close>: \<^verbatim>\<open>ch\<close> was not written.
\<close>

definition read :: "istream \<Rightarrow> char option \<times> istream" where
  "read s =
     (if \<not> good s then (None, s\<lparr>failbit := True\<rparr>)
      else case buf s of
        [] \<Rightarrow> (None, s\<lparr>eofbit := True, failbit := True\<rparr>)
      | c # r \<Rightarrow> (Some c, s\<lparr>buf := r\<rparr>))"

text \<open>
  The sentry of a formatted input function (\<^verbatim>\<open>skipws\<close> is set by default): on a stream that
  is not \<^verbatim>\<open>good()\<close> it sets \<^verbatim>\<open>failbit\<close>; otherwise it discards leading whitespace, and
  if that reaches the end of input it sets \<^verbatim>\<open>eofbit | failbit\<close>.
\<close>

definition sentry :: "istream \<Rightarrow> bool \<times> istream" where
  "sentry s =
     (if \<not> good s then (False, s\<lparr>failbit := True\<rparr>)
      else let b = dropWhile isspace (buf s)
           in if b = [] then (False, s\<lparr>buf := [], eofbit := True, failbit := True\<rparr>)
              else (True, s\<lparr>buf := b\<rparr>))"

text \<open>
  \<^verbatim>\<open>in >> str\<close> for a \<^verbatim>\<open>std::string\<close>: after the sentry, characters are extracted up to
  the next whitespace or the end of input (which sets \<^verbatim>\<open>eofbit\<close>); extracting nothing
  sets \<^verbatim>\<open>failbit\<close>. \<open>None\<close>: the sentry failed and the string variable keeps its value.
\<close>

definition extract_string :: "istream \<Rightarrow> string option \<times> istream" where
  "extract_string s =
     (case sentry s of
        (False, s') \<Rightarrow> (None, s'\<lparr>failbit := True\<rparr>)
      | (True, s') \<Rightarrow>
          let str = takeWhile (\<lambda>c. \<not> isspace c) (buf s');
              r = dropWhile (\<lambda>c. \<not> isspace c) (buf s')
          in (Some str,
              s'\<lparr>buf := r, eofbit := eofbit s' \<or> r = [], failbit := failbit s' \<or> str = []\<rparr>))"

text \<open>A string variable declared just before the extraction is empty when nothing is stored.\<close>

definition fresh_string :: "istream \<Rightarrow> string \<times> istream" where
  "fresh_string s = (case extract_string s of (None, s') \<Rightarrow> ([], s') | (Some str, s') \<Rightarrow> (str, s'))"

text \<open>\<^verbatim>\<open>in >> ignore\<close>: the value of \<^verbatim>\<open>ignore\<close> is never used.\<close>

definition ignore :: "istream \<Rightarrow> istream" where
  "ignore s = snd (extract_string s)"

text \<open>
  \<^verbatim>\<open>in >> argumentIndex\<close> for a \<^verbatim>\<open>size_t\<close> (64 bits): after the sentry, \<^verbatim>\<open>num_get\<close>
  takes an optional sign and the decimal digits that follow. With no digit it stores 0 and
  sets \<^verbatim>\<open>failbit\<close>; a value that does not fit stores the largest value and sets
  \<^verbatim>\<open>failbit\<close>; a minus sign negates modulo \<open>2 ^ 64\<close>. \<open>None\<close>: the sentry failed and the
  variable, which has no initialiser, was not written.
\<close>

definition digits_value :: "string \<Rightarrow> int" where
  "digits_value ds = foldl (\<lambda>a c. 10 * a + (of_char c - 48)) 0 ds"

definition extract_size_t :: "istream \<Rightarrow> 64 word option \<times> istream" where
  "extract_size_t s =
     (case sentry s of
        (False, s') \<Rightarrow> (None, s')
      | (True, s') \<Rightarrow>
          let neg = (take 1 (buf s') = ''-'');
              b = (if take 1 (buf s') = ''-'' \<or> take 1 (buf s') = ''+'' then drop 1 (buf s')
                   else buf s');
              ds = takeWhile isdigit b;
              r = dropWhile isdigit b;
              s'' = s'\<lparr>buf := r, eofbit := eofbit s' \<or> r = []\<rparr>
          in if ds = [] then (Some 0, s''\<lparr>failbit := True\<rparr>)
             else if 2 ^ 64 \<le> digits_value ds then (Some (- 1), s''\<lparr>failbit := True\<rparr>)
             else (Some (if neg then - word_of_int (digits_value ds)
                         else word_of_int (digits_value ds)),
                   s''))"

section \<open>The analysis report parser\<close>

text \<open>
  The ways the constructor can stop without returning: \<^verbatim>\<open>abort()\<close>, the uncaught
  \<^verbatim>\<open>std::out_of_range\<close> thrown by \<^verbatim>\<open>std::string::erase\<close>, and the use of a variable that
  was never written.
\<close>

datatype failure = Abort | OutOfRange | Indeterminate

record KernelInfo =
  funcName :: string
  memoryEffect :: string
  ptrArgInfos :: "(int \<times> string) list"

type_synonym table = "string \<rightharpoonup> KernelInfo"

text \<open>\<^verbatim>\<open>str.size()\<close> is a \<^verbatim>\<open>size_t\<close>, and arithmetic on it wraps around.\<close>

definition string_size :: "string \<Rightarrow> 64 word" where
  "string_size str = of_nat (length str)"

text \<open>\<^verbatim>\<open>str.erase(pos)\<close> removes everything from \<open>pos\<close> on and throws when \<open>pos > size()\<close>.\<close>

definition erase :: "string \<Rightarrow> 64 word \<Rightarrow> failure + string" where
  "erase str pos =
     (if int (length str) < uint pos then Inl OutOfRange else Inr (take (nat (uint pos)) str))"

text \<open>
  Storing the \<^verbatim>\<open>size_t\<close> index in the \<^verbatim>\<open>int\<close> of \<^verbatim>\<open>std::pair<int, std::string>\<close> keeps its
  low 32 bits, read as two's complement.
\<close>

definition to_int :: "64 word \<Rightarrow> int" where
  "to_int w = sint (ucast w :: 32 word)"

lemma read_buf_less: "read s = (Some ch, s') \<Longrightarrow> length (buf s') < length (buf s)"
  by (auto simp: read_def split: if_splits list.splits)

text \<open>
  Lines 41 to 43, \<^verbatim>\<open>do { in.read(&ch, 1); } while (in && ch != '@');\<close>. When the read
  fails the stream is in the failed state and \<^verbatim>\<open>ch\<close> is not looked at.
\<close>

function find_at :: "istream \<Rightarrow> istream" where
  "find_at s =
     (case read s of
        (None, s') \<Rightarrow> s'
      | (Some ch, s') \<Rightarrow> if ok s' \<and> ch \<noteq> CHR ''@'' then find_at s' else s')"
  by pat_completeness auto
termination
  by (relation "measure (\<lambda>s. length (buf s))") (auto dest: read_buf_less [OF sym])

declare find_at.simps [simp del]

text \<open>
  Lines 68 to 79, one argument line after its keyword \<^verbatim>\<open>Arg\<close>: two characters, the
  index, two tokens, the effect, two tokens; then the pair is appended. When the sentry
  of the index extraction fails, \<^verbatim>\<open>argumentIndex\<close>, declared in line 71 with no
  initialiser, is never written and line 79 uses an indeterminate value: undefined
  behaviour in C++, the failure \<open>Indeterminate\<close> here.
\<close>

definition arg_line :: "KernelInfo \<Rightarrow> istream \<Rightarrow> failure + KernelInfo \<times> istream" where
  "arg_line kernelInfo s =
     (let s1 = snd (read s);
          s2 = snd (read s1);
          (argumentIndex, s3) = extract_size_t s2;
          s4 = ignore s3;
          s5 = ignore s4;
          (ptrArgEffect, s6) = fresh_string s5;
          s7 = ignore s6;
          s8 = ignore s7
      in case argumentIndex of
           None \<Rightarrow> Inl Indeterminate
         | Some i \<Rightarrow>
             Inr (kernelInfo\<lparr>ptrArgInfos := ptrArgInfos kernelInfo @ [(to_int i, ptrArgEffect)]\<rparr>,
                  s8))"

lemma read_buf_le: "length (buf (snd (read s))) \<le> length (buf s)"
  by (auto simp: read_def split: list.splits)

lemma length_dropWhile_takeWhile: "length (takeWhile P xs) + length (dropWhile P xs) = length xs"
  by (induction xs) auto

lemma sentry_buf_le: "length (buf (snd (sentry s))) \<le> length (buf s)"
  by (auto simp: sentry_def Let_def length_dropWhile_le)

lemma extract_string_buf_le: "length (buf (snd (extract_string s))) \<le> length (buf s)"
proof -
  have "length (dropWhile (\<lambda>c. \<not> isspace c) (buf (snd (sentry s)))) \<le> length (buf s)"
    using sentry_buf_le [of s] length_dropWhile_le [of "\<lambda>c. \<not> isspace c" "buf (snd (sentry s))"]
    by linarith
  then show ?thesis
    using sentry_buf_le [of s]
    by (auto simp: extract_string_def Let_def split: prod.splits bool.splits)
qed

lemma extract_string_Some_buf:
  assumes "extract_string s = (Some str, s')"
  shows "length (buf s') + length str \<le> length (buf s)"
proof -
  obtain s1 where s1: "sentry s = (True, s1)"
    using assms by (cases "sentry s") (auto simp: extract_string_def split: bool.splits)
  have "length (buf s1) \<le> length (buf s)"
    using sentry_buf_le [of s] s1 by simp
  moreover have "str = takeWhile (\<lambda>c. \<not> isspace c) (buf s1)"
    and "buf s' = dropWhile (\<lambda>c. \<not> isspace c) (buf s1)"
    using assms s1 by (auto simp: extract_string_def Let_def)
  ultimately show ?thesis
    using length_dropWhile_takeWhile [of "\<lambda>c. \<not> isspace c" "buf s1"] by simp
qed

lemma fresh_string_buf:
  assumes "fresh_string s = (str, s')"
  shows "length (buf s') + length str \<le> length (buf s)"
proof (cases "extract_string s")
  case (Pair r s1)
  show ?thesis
  proof (cases r)
    case None
    then show ?thesis
      using assms Pair extract_string_buf_le [of s] by (simp add: fresh_string_def)
  next
    case (Some t)
    then show ?thesis
      using assms Pair extract_string_Some_buf [of s t s1] by (simp add: fresh_string_def)
  qed
qed

lemma ignore_buf_le: "length (buf (ignore s)) \<le> length (buf s)"
  by (simp add: ignore_def extract_string_buf_le)

lemma extract_size_t_buf_le: "length (buf (snd (extract_size_t s))) \<le> length (buf s)"
proof (cases "sentry s")
  case (Pair b s1)
  have le: "length (buf s1) \<le> length (buf s)"
    using sentry_buf_le [of s] Pair by simp
  have "length (dropWhile isdigit (drop 1 (buf s1))) \<le> length (buf s1)"
    using length_dropWhile_le [of isdigit "drop 1 (buf s1)"] by simp
  moreover have "length (dropWhile isdigit (buf s1)) \<le> length (buf s1)"
    by (rule length_dropWhile_le)
  ultimately show ?thesis
    using Pair le by (cases b) (auto simp: extract_size_t_def Let_def)
qed

lemma arg_line_buf_le:
  assumes "arg_line kernelInfo s = Inr (kernelInfo', s')"
  shows "length (buf s') \<le> length (buf s)"
proof -
  define s2 where "s2 = snd (read (snd (read s)))"
  define s3 where "s3 = snd (extract_size_t s2)"
  define s5 where "s5 = ignore (ignore s3)"
  define s6 where "s6 = snd (fresh_string s5)"
  have "s' = ignore (ignore s6)"
    using assms
    by (auto simp: arg_line_def Let_def s2_def s3_def s5_def s6_def
             split: prod.splits option.splits)
  moreover have "length (buf s2) \<le> length (buf s)"
    unfolding s2_def using read_buf_le [of s] read_buf_le [of "snd (read s)"] by linarith
  moreover have "length (buf s3) \<le> length (buf s2)"
    unfolding s3_def by (rule extract_size_t_buf_le)
  moreover have "length (buf s5) \<le> length (buf s3)"
    unfolding s5_def using ignore_buf_le [of s3] ignore_buf_le [of "ignore s3"] by linarith
  moreover have "length (buf s6) \<le> length (buf s5)"
  proof -
    have "length (buf (snd (fresh_string s5))) + length (fst (fresh_string s5)) \<le> length (buf s5)"
      by (rule fresh_string_buf) simp
    then show ?thesis unfolding s6_def by linarith
  qed
  moreover have "length (buf (ignore (ignore s6))) \<le> length (buf s6)"
    using ignore_buf_le [of s6] ignore_buf_le [of "ignore s6"] by linarith
  ultimately show ?thesis by simp
qed

lemma read_args_step_less:
  assumes "fresh_string s = (''Arg'', s1)" and "arg_line kernelInfo s1 = Inr (kernelInfo', s2)"
  shows "length (buf s2) < length (buf s)"
proof -
  have "length (buf s1) + length ''Arg'' \<le> length (buf s)"
    using assms(1) by (rule fresh_string_buf)
  moreover have "length (buf s2) \<le> length (buf s1)"
    using assms(2) by (rule arg_line_buf_le)
  ultimately show ?thesis by simp
qed

text \<open>
  Lines 59 to 80, the loop over the argument lines. It ends at the keyword \<^verbatim>\<open>Function\<close>
  or when the stream has failed, and calls \<^verbatim>\<open>abort()\<close> on any other keyword than
  \<^verbatim>\<open>Arg\<close>.
\<close>

function read_args :: "KernelInfo \<Rightarrow> istream \<Rightarrow> failure + KernelInfo \<times> istream" where
  "read_args kernelInfo s =
     (case fresh_string s of
        (argumentKeyword, s1) \<Rightarrow>
          if argumentKeyword = ''Function'' \<or> \<not> ok s1 then Inr (kernelInfo, s1)
          else if argumentKeyword \<noteq> ''Arg'' then Inl Abort
          else (case arg_line kernelInfo s1 of
                  Inl e \<Rightarrow> Inl e
                | Inr (kernelInfo', s2) \<Rightarrow> read_args kernelInfo' s2))"
  by pat_completeness auto
termination
  by (relation "measure (\<lambda>(kernelInfo, s). length (buf s))")
     (auto dest: read_args_step_less [OF sym])

declare read_args.simps [simp del]


lemma read_None_failed: "read s = (None, s') \<Longrightarrow> \<not> ok s'"
  by (auto simp: read_def ok_def split: if_splits list.splits)

lemma find_at_buf_less: "ok (find_at s) \<Longrightarrow> length (buf (find_at s)) < length (buf s)"
proof (induction s rule: find_at.induct)
  case (1 s)
  obtain r s' where r: "read s = (r, s')" by (cases "read s")
  show ?case
  proof (cases r)
    case None
    then show ?thesis
      using "1.prems" r read_None_failed [of s s'] by (simp add: find_at.simps [of s])
  next
    case (Some ch)
    have less: "length (buf s') < length (buf s)"
      using r Some by (auto dest: read_buf_less)
    show ?thesis
    proof (cases "ok s' \<and> ch \<noteq> CHR ''@''")
      case True
      then have "find_at s = find_at s'"
        using r Some by (simp add: find_at.simps [of s])
      then show ?thesis
        using "1.IH" [OF r [symmetric] Some True] "1.prems" less by simp
    next
      case False
      then have "find_at s = s'"
        using r Some by (auto simp: find_at.simps [of s])
      then show ?thesis using less by simp
    qed
  qed
qed

text \<open>
  Lines 36 to 55, the head of a function block: the search for \<^verbatim>\<open>@\<close>, the name with its
  last two characters erased, two tokens, and the memory effect. \<open>None\<close> is the
  \<^verbatim>\<open>break\<close> of line 44.
\<close>

definition header :: "istream \<Rightarrow> (failure + KernelInfo \<times> istream) option" where
  "header s =
     (let s1 = find_at s
      in if \<not> ok s1 then None
         else case fresh_string s1 of
            (name, s2) \<Rightarrow>
              (case erase name (string_size name - 2) of
                 Inl e \<Rightarrow> Some (Inl e)
               | Inr name' \<Rightarrow>
                   let s3 = ignore s2;
                       s4 = ignore s3;
                       (effect, s5) = fresh_string s4
                   in Some (Inr (\<lparr>funcName = name', memoryEffect = effect, ptrArgInfos = []\<rparr>,
                                 s5))))"

lemma header_buf_less:
  assumes "header s = Some (Inr (kernelInfo, s'))"
  shows "length (buf s') < length (buf s)"
proof -
  define s1 where "s1 = find_at s"
  define s2 where "s2 = snd (fresh_string s1)"
  define s4 where "s4 = ignore (ignore s2)"
  have ok1: "ok s1"
    using assms by (auto simp: header_def Let_def s1_def split: if_splits)
  have "s' = snd (fresh_string s4)"
    using assms ok1
    by (auto simp: header_def Let_def s1_def s2_def s4_def split: prod.splits sum.splits)
  moreover have "length (buf s1) < length (buf s)"
    using ok1 unfolding s1_def by (rule find_at_buf_less)
  moreover have "length (buf s2) \<le> length (buf s1)"
  proof -
    have "length (buf (snd (fresh_string s1))) + length (fst (fresh_string s1)) \<le> length (buf s1)"
      by (rule fresh_string_buf) simp
    then show ?thesis unfolding s2_def by linarith
  qed
  moreover have "length (buf s4) \<le> length (buf s2)"
    unfolding s4_def using ignore_buf_le [of s2] ignore_buf_le [of "ignore s2"] by linarith
  moreover have "length (buf (snd (fresh_string s4))) \<le> length (buf s4)"
  proof -
    have "length (buf (snd (fresh_string s4))) + length (fst (fresh_string s4)) \<le> length (buf s4)"
      by (rule fresh_string_buf) simp
    then show ?thesis by linarith
  qed
  ultimately show ?thesis by simp
qed

lemma read_args_buf_le:
  "read_args kernelInfo s = Inr (kernelInfo', s') \<Longrightarrow> length (buf s') \<le> length (buf s)"
proof (induction kernelInfo s rule: read_args.induct)
  case (1 kernelInfo s)
  obtain kw s1 where kw: "fresh_string s = (kw, s1)" by (cases "fresh_string s")
  have le1: "length (buf s1) \<le> length (buf s)"
    using fresh_string_buf [OF kw] by simp
  show ?case
  proof (cases "kw = ''Function'' \<or> \<not> ok s1")
    case True
    then have "s' = s1"
      using "1.prems" kw by (auto simp: read_args.simps [of kernelInfo s])
    then show ?thesis using le1 by simp
  next
    case False
    then have arg: "kw = ''Arg''"
      using "1.prems" kw by (auto simp: read_args.simps [of kernelInfo s] split: if_splits)
    then obtain k2 s2 where line: "arg_line kernelInfo s1 = Inr (k2, s2)"
      and rest: "read_args k2 s2 = Inr (kernelInfo', s')"
      using "1.prems" kw False
      by (auto simp: read_args.simps [of kernelInfo s] split: sum.splits)
    have "length (buf s') \<le> length (buf s2)"
      using "1.IH" [OF kw [symmetric] False _ line refl rest] arg by simp
    moreover have "length (buf s2) \<le> length (buf s1)"
      using line by (rule arg_line_buf_le)
    ultimately show ?thesis using le1 by simp
  qed
qed

text \<open>
  Lines 35 to 83, the loop over the function blocks. Line 82 stores the block under the
  local \<^verbatim>\<open>funcName\<close>, the string that line 49 copied into \<^verbatim>\<open>kernelInfo.funcName\<close>;
  neither is assigned afterwards.
\<close>

function parse_loop :: "table \<Rightarrow> istream \<Rightarrow> failure + table" where
  "parse_loop funcNameToKernelInfoMap s =
     (if \<not> ok s then Inr funcNameToKernelInfoMap
      else case header s of
             None \<Rightarrow> Inr funcNameToKernelInfoMap
           | Some (Inl e) \<Rightarrow> Inl e
           | Some (Inr (kernelInfo, s1)) \<Rightarrow>
               (case read_args kernelInfo s1 of
                  Inl e \<Rightarrow> Inl e
                | Inr (kernelInfo', s2) \<Rightarrow>
                    parse_loop (funcNameToKernelInfoMap(funcName kernelInfo' \<mapsto> kernelInfo'))
                      s2))"
  by pat_completeness auto
termination
proof (relation "measure (\<lambda>(m, s). length (buf s))", goal_cases)
  case 1
  show ?case by simp
next
  case (2 m s x2 x1 kernelInfo s1 x2a kernelInfo' s2)
  have "length (buf s1) < length (buf s)"
    using 2 header_buf_less [of s kernelInfo s1] by simp
  moreover have "length (buf s2) \<le> length (buf s1)"
    using 2 read_args_buf_le [of kernelInfo s1 kernelInfo' s2] by simp
  ultimately show ?case by simp
qed

declare parse_loop.simps [simp del]

text \<open>The constructor, lines 32 to 84: the table it leaves, or the way it stopped.\<close>

definition MemRedAnalysisParser :: "string option \<Rightarrow> failure + table" where
  "MemRedAnalysisParser file = parse_loop Map.empty (ifstream file)"

section \<open>The graph annotator\<close>

text \<open>
  The CUDA runtime is outside the program; \<^verbatim>\<open>analyzeGraph\<close> sees it through three calls,
  each of which may return an error code, and through the memory the kernel parameters
  point into. Handles of nodes and functions are numbers. Memory holds typed objects:
  reading an \<^verbatim>\<open>int *\<close> from a place that holds none is undefined in C++ and a failure
  here.
\<close>

type_synonym addr = "64 word"

datatype val = Pointer addr | Integer int

record cudaKernelNodeParams =
  func :: nat
  kernelParams :: "addr list"

record runtime =
  cudaGraphGetNodes :: "nat + nat list"
  cudaGraphKernelNodeGetParams :: "nat \<Rightarrow> nat + cudaKernelNodeParams"
  cudaFuncGetName :: "nat \<Rightarrow> nat + string"
  memory :: "addr \<rightharpoonup> val"

text \<open>
  What \<^verbatim>\<open>analyzeGraph\<close> writes to \<^verbatim>\<open>std::cout\<close>, line by line, and the ways it stops
  early: a failure of the parser, \<^verbatim>\<open>CUDA_CHECK\<close> throwing, \<^verbatim>\<open>abort()\<close> after
  \<^verbatim>\<open>Could not find kernel\<close>, and a read outside the parameter array or of a slot that
  holds no pointer.
\<close>

datatype line = NodeLine nat | FuncNameLine string | ArgLine int string val

datatype stop = ParserFailed failure | CudaError nat | CouldNotFindKernel string | InvalidRead int

text \<open>
  Line 117, \<^verbatim>\<open>*static_cast<int **>(params.kernelParams[index])\<close>: the parameter slot is
  taken as the address of an \<^verbatim>\<open>int *\<close>, which is read once. The result has type
  \<^verbatim>\<open>int *\<close> and is printed as such.
\<close>

definition kernel_param :: "(addr \<rightharpoonup> val) \<Rightarrow> addr list \<Rightarrow> int \<Rightarrow> val option" where
  "kernel_param mem params index =
     (if 0 \<le> index \<and> index < int (length params)
      then (case mem (params ! nat index) of
              Some (Pointer p) \<Rightarrow> Some (Pointer p)
            | _ \<Rightarrow> None)
      else None)"

text \<open>Lines 114 to 119, the loop over \<^verbatim>\<open>kernelInfo.ptrArgInfos\<close>.\<close>

fun print_args ::
  "(addr \<rightharpoonup> val) \<Rightarrow> addr list \<Rightarrow> (int \<times> string) list \<Rightarrow> line list \<times> stop option" where
  "print_args mem params [] = ([], None)"
| "print_args mem params ((index, effect) # rest) =
     (case kernel_param mem params index of
        None \<Rightarrow> ([], Some (InvalidRead index))
      | Some v \<Rightarrow>
          (case print_args mem params rest of
             (out, r) \<Rightarrow> (ArgLine index effect v # out, r)))"

text \<open>Lines 96 to 119, the body of the loop over the nodes, for node \<open>u\<close> at position \<open>i\<close>.\<close>

definition analyze_node :: "table \<Rightarrow> runtime \<Rightarrow> nat \<Rightarrow> nat \<Rightarrow> line list \<times> stop option" where
  "analyze_node funcNameToKernelInfoMap rt i u =
     (case cudaGraphKernelNodeGetParams rt u of
        Inl err \<Rightarrow> ([NodeLine i], Some (CudaError err))
      | Inr params \<Rightarrow>
          (case cudaFuncGetName rt (func params) of
             Inl err \<Rightarrow> ([NodeLine i], Some (CudaError err))
           | Inr s \<Rightarrow>
               (case funcNameToKernelInfoMap s of
                  None \<Rightarrow> ([NodeLine i], Some (CouldNotFindKernel s))
                | Some kernelInfo \<Rightarrow>
                    (case print_args (memory rt) (kernelParams params) (ptrArgInfos kernelInfo) of
                       (out, r) \<Rightarrow>
                         (NodeLine i # FuncNameLine (funcName kernelInfo) # out, r)))))"

text \<open>Lines 95 to 120, the loop over the nodes.\<close>

fun analyze_nodes :: "table \<Rightarrow> runtime \<Rightarrow> nat \<Rightarrow> nat list \<Rightarrow> line list \<times> stop option" where
  "analyze_nodes funcNameToKernelInfoMap rt i [] = ([], None)"
| "analyze_nodes funcNameToKernelInfoMap rt i (u # nodes) =
     (case analyze_node funcNameToKernelInfoMap rt i u of
        (out, Some e) \<Rightarrow> (out, Some e)
      | (out, None) \<Rightarrow>
          (case analyze_nodes funcNameToKernelInfoMap rt (i + 1) nodes of
             (out', r) \<Rightarrow> (out @ out', r)))"

text \<open>
  \<^verbatim>\<open>analyzeGraph\<close>, lines 87 to 121. The two calls of \<^verbatim>\<open>cudaGraphGetNodes\<close>, for the
  count and for the nodes, are one answer of the runtime.
\<close>

definition analyzeGraph :: "string option \<Rightarrow> runtime \<Rightarrow> line list \<times> stop option" where
  "analyzeGraph file rt =
     (case MemRedAnalysisParser file of
        Inl e \<Rightarrow> ([], Some (ParserFailed e))
      | Inr funcNameToKernelInfoMap \<Rightarrow>
          (case cudaGraphGetNodes rt of
             Inl err \<Rightarrow> ([], Some (CudaError err))
           | Inr nodes \<Rightarrow> analyze_nodes funcNameToKernelInfoMap rt 0 nodes))"


section \<open>The text of an analysis report\<close>

text \<open>
  Tokens are maximal runs of characters that are not whitespace; a token is read up to,
  and without, the whitespace that delimits it.
\<close>

definition spaces :: "string \<Rightarrow> bool" where
  "spaces ws = (\<forall>c \<in> set ws. isspace c)"

definition token :: "string \<Rightarrow> bool" where
  "token t = (t \<noteq> [] \<and> (\<forall>c \<in> set t. \<not> isspace c))"

definition gap :: "string \<Rightarrow> bool" where
  "gap ws = (ws \<noteq> [] \<and> spaces ws)"

definition delimited :: "string \<Rightarrow> bool" where
  "delimited r = (r \<noteq> [] \<and> isspace (hd r))"

definition digits :: "string \<Rightarrow> bool" where
  "digits ds = (ds \<noteq> [] \<and> (\<forall>c \<in> set ds. isdigit c))"

text \<open>
  The comments of lines 39, 52 and 58 show the lines of a function block:
  \<^verbatim>\<open>Function <signature> (@<mangled name>):\<close>, then \<^verbatim>\<open>Memory Effect: <effect>\<close>, then
  for each pointer argument \<^verbatim>\<open>Arg #<index>:<tab>Effect: <effect>  Capture: <yes or no>\<close>.
  A report is a sequence of such blocks, every line ended by a newline.
\<close>

fun decimal :: "nat \<Rightarrow> string" where
  "decimal n =
     (if n < 10 then [char_of (48 + int n)]
      else decimal (n div 10) @ [char_of (48 + int (n mod 10))])"

declare decimal.simps [simp del]

record arg_entry =
  arg_index :: nat
  arg_effect :: string
  arg_capture :: string

record function_block =
  signature :: string
  mangled :: string
  block_effect :: string
  arg_entries :: "arg_entry list"

definition render_arg :: "arg_entry \<Rightarrow> string" where
  "render_arg a =
     ''Arg #'' @ decimal (arg_index a) @ '':'' @ [CHR 0x09] @ ''Effect: '' @ arg_effect a @
     ''  Capture: '' @ arg_capture a @ [CHR 0x0A]"

definition block_body :: "function_block \<Rightarrow> string" where
  "block_body b =
     mangled b @ ''):'' @ [CHR 0x0A] @ ''Memory Effect: '' @ block_effect b @ [CHR 0x0A] @
     concat (map render_arg (arg_entries b))"

definition render_block :: "function_block \<Rightarrow> string" where
  "render_block b = ''Function '' @ signature b @ '' (@'' @ block_body b"

definition render_report :: "function_block list \<Rightarrow> string" where
  "render_report bs = concat (map render_block bs)"

text \<open>
  What the layout asks of the fields: the signature has no \<^verbatim>\<open>@\<close>, the mangled name has no
  whitespace, the effects and the capture value are tokens, and an index is a \<^verbatim>\<open>size_t\<close>.
\<close>

definition wf_arg :: "arg_entry \<Rightarrow> bool" where
  "wf_arg a = (arg_index a < 2 ^ 64 \<and> token (arg_effect a) \<and> token (arg_capture a))"

definition wf_block :: "function_block \<Rightarrow> bool" where
  "wf_block b =
     (CHR ''@'' \<notin> set (signature b) \<and> (\<forall>c \<in> set (mangled b). \<not> isspace c) \<and>
      length (mangled b) + 2 < 2 ^ 64 \<and> token (block_effect b) \<and>
      (\<forall>a \<in> set (arg_entries b). wf_arg a))"

text \<open>
  What the constructor stores for a block of this layout: line 72 reads the index into a
  \<^verbatim>\<open>size_t\<close> and line 79 puts it into the \<^verbatim>\<open>int\<close> of the pair, so the list holds
  \<open>to_int\<close> of each index; this is the index itself only when it is below \<open>2 ^ 31\<close>.
  \<open>table_of\<close> is the table after a list of blocks, later blocks replacing earlier ones
  of the same name. These describe the code and serve the lemmas about it; the claims
  state the entries they expect in their own terms.
\<close>

definition stored_arg :: "arg_entry \<Rightarrow> int \<times> string" where
  "stored_arg a = (to_int (word_of_nat (arg_index a)), arg_effect a)"

definition stored_block :: "function_block \<Rightarrow> KernelInfo" where
  "stored_block b =
     \<lparr>funcName = mangled b, memoryEffect = block_effect b,
      ptrArgInfos = map stored_arg (arg_entries b)\<rparr>"

definition table_of :: "table \<Rightarrow> function_block list \<Rightarrow> table" where
  "table_of m bs = foldl (\<lambda>m b. m(mangled b \<mapsto> stored_block b)) m bs"

section \<open>The positions the parser reaches\<close>

text \<open>
  The heads of the two loops: the test of line 35 with the table built so far, and the
  read of line 61 with the block being built. \<open>reaches file p\<close> holds when the
  constructor, started on \<open>file\<close>, comes to position \<open>p\<close>; \<open>outcome p\<close> is what the
  constructor produces from there.
\<close>

datatype point = AtBlock table istream | AtArg table KernelInfo istream

inductive reaches :: "string option \<Rightarrow> point \<Rightarrow> bool" for input :: "string option" where
  start: "reaches input (AtBlock Map.empty (ifstream input))"
| block: "reaches input (AtBlock m s) \<Longrightarrow> ok s \<Longrightarrow> header s = Some (Inr (k, s')) \<Longrightarrow>
          reaches input (AtArg m k s')"
| arg: "reaches input (AtArg m k s) \<Longrightarrow> fresh_string s = (''Arg'', s1) \<Longrightarrow> ok s1 \<Longrightarrow>
        arg_line k s1 = Inr (k', s2) \<Longrightarrow> reaches input (AtArg m k' s2)"
| close: "reaches input (AtArg m k s) \<Longrightarrow> fresh_string s = (kw, s1) \<Longrightarrow>
          kw = ''Function'' \<or> \<not> ok s1 \<Longrightarrow> reaches input (AtBlock (m(funcName k \<mapsto> k)) s1)"

fun outcome :: "point \<Rightarrow> failure + table" where
  "outcome (AtBlock m s) = parse_loop m s"
| "outcome (AtArg m k s) =
     (case read_args k s of
        Inl e \<Rightarrow> Inl e
      | Inr (k', s') \<Rightarrow> parse_loop (m(funcName k' \<mapsto> k')) s')"


text \<open>
  An example after \<^verbatim>\<open>main\<close>: a report for the kernel \<^verbatim>\<open>foo\<close> of line 123 with one
  argument line, for the fourth parameter; the table it stands for; and a runtime whose
  nodes all carry the five parameter slots of the launch of line 141. Slot 3 holds the
  pointer \<^verbatim>\<open>x\<close>, which points at an \<^verbatim>\<open>int\<close> holding 42. Function handle 0 is
  \<^verbatim>\<open>foo\<close>; every other handle is a kernel \<^verbatim>\<open>bar\<close>, which the report does not know.
\<close>

definition example_report :: string where
  "example_report =
     ''Function foo(int, char, long long, int*, int*) (@foo):'' @ [CHR 0x0A] @
     ''Memory Effect: ArgMemOnly'' @ [CHR 0x0A] @
     ''Arg #3:'' @ [CHR 0x09] @ ''Effect: ReadOnly  Capture: No'' @ [CHR 0x0A]"

definition example_table :: table where
  "example_table =
     [''foo'' \<mapsto> \<lparr>funcName = ''foo'', memoryEffect = ''ArgMemOnly'',
                     ptrArgInfos = [(3, ''ReadOnly'')]\<rparr>]"

definition example_runtime :: "nat list \<Rightarrow> runtime" where
  "example_runtime nodes =
     \<lparr>cudaGraphGetNodes = Inr nodes,
      cudaGraphKernelNodeGetParams =
        (\<lambda>u. Inr \<lparr>func = u, kernelParams = [0x100, 0x104, 0x108, 0x110, 0x118]\<rparr>),
      cudaFuncGetName = (\<lambda>f. if f = 0 then Inr ''foo'' else Inr ''bar''),
      memory = [0x100 \<mapsto> Integer 1, 0x104 \<mapsto> Integer 2, 0x108 \<mapsto> Integer 3,
                0x110 \<mapsto> Pointer 0x7000, 0x118 \<mapsto> Pointer 0x7100,
                0x7000 \<mapsto> Integer 42, 0x7100 \<mapsto> Integer 1]\<rparr>"

lemma reaches_outcome: "reaches file p \<Longrightarrow> MemRedAnalysisParser file = outcome p"
proof (induction rule: reaches.induct)
  case start
  show ?case by (simp add: MemRedAnalysisParser_def)
next
  case (block m s k s')
  have "parse_loop m s = outcome (AtArg m k s')"
    using block.hyps(2,3) by (subst parse_loop.simps) simp
  then show ?case using block.IH by simp
next
  case (arg m k s s1 k' s2)
  have "read_args k s = read_args k' s2"
    using arg.hyps(2,3,4) by (subst read_args.simps) simp
  then show ?case using arg.IH by simp
next
  case (close m k s kw s1)
  have "read_args k s = Inr (k, s1)"
    using close.hyps(2,3) by (subst read_args.simps) auto
  then show ?case using close.IH by simp
qed

lemma arg_line_funcName:
  "arg_line k s = Inr (k', s') \<Longrightarrow> funcName k' = funcName k \<and> memoryEffect k' = memoryEffect k"
  by (auto simp: arg_line_def Let_def split: prod.splits option.splits)

lemma read_args_funcName:
  "read_args k s = Inr (k', s') \<Longrightarrow> funcName k' = funcName k \<and> memoryEffect k' = memoryEffect k"
proof (induction k s rule: read_args.induct)
  case (1 kernelInfo s)
  obtain kw s1 where kw: "fresh_string s = (kw, s1)" by (cases "fresh_string s")
  show ?case
  proof (cases "kw = ''Function'' \<or> \<not> ok s1")
    case True
    then have "k' = kernelInfo"
      using "1.prems" kw by (auto simp: read_args.simps [of kernelInfo s])
    then show ?thesis by simp
  next
    case False
    then have arg: "kw = ''Arg''"
      using "1.prems" kw by (auto simp: read_args.simps [of kernelInfo s] split: if_splits)
    then obtain k2 s2 where line: "arg_line kernelInfo s1 = Inr (k2, s2)"
      and rest: "read_args k2 s2 = Inr (k', s')"
      using "1.prems" kw False
      by (auto simp: read_args.simps [of kernelInfo s] split: sum.splits)
    have "funcName k' = funcName k2 \<and> memoryEffect k' = memoryEffect k2"
      using "1.IH" [OF kw [symmetric] False _ line refl rest] arg by simp
    then show ?thesis
      using arg_line_funcName [OF line] by simp
  qed
qed


section \<open>The stream operations on token text\<close>

text \<open>A stream in the good state is determined by the text still to be read.\<close>

abbreviation stream :: "string \<Rightarrow> istream" where
  "stream b \<equiv> \<lparr>buf = b, eofbit = False, failbit = False\<rparr>"

lemma read_stream: "read (stream (c # r)) = (Some c, stream r)"
  by (simp add: read_def good_def)

lemma dropWhile_spaces_token:
  "spaces ws \<Longrightarrow> token t \<Longrightarrow> dropWhile isspace (ws @ t @ r) = t @ r"
  by (cases t) (auto simp: spaces_def token_def dropWhile_append)

lemma takeWhile_token:
  "token t \<Longrightarrow> delimited r \<Longrightarrow> takeWhile (\<lambda>c. \<not> isspace c) (t @ r) = t"
  by (cases r) (auto simp: token_def delimited_def takeWhile_append)

lemma dropWhile_token:
  "token t \<Longrightarrow> delimited r \<Longrightarrow> dropWhile (\<lambda>c. \<not> isspace c) (t @ r) = r"
  by (cases r) (auto simp: token_def delimited_def dropWhile_append)

lemma sentry_token:
  "spaces ws \<Longrightarrow> token t \<Longrightarrow> sentry (stream (ws @ t @ r)) = (True, stream (t @ r))"
  by (simp add: sentry_def good_def dropWhile_spaces_token token_def)

lemma extract_string_token:
  assumes "spaces ws" and "token t" and "delimited r"
  shows "extract_string (stream (ws @ t @ r)) = (Some t, stream r)"
proof -
  have "sentry (stream (ws @ t @ r)) = (True, stream (t @ r))"
    using assms by (simp add: sentry_token)
  moreover have "takeWhile (\<lambda>c. \<not> isspace c) (t @ r) = t"
    and "dropWhile (\<lambda>c. \<not> isspace c) (t @ r) = r"
    using assms by (simp_all add: takeWhile_token dropWhile_token)
  moreover have "t \<noteq> []" and "r \<noteq> []"
    using assms by (auto simp: token_def delimited_def)
  moreover have "Bex (set t \<union> set r) isspace"
    using assms by (cases r) (auto simp: delimited_def)
  ultimately show ?thesis by (simp add: extract_string_def)
qed

lemma fresh_string_token:
  "spaces ws \<Longrightarrow> token t \<Longrightarrow> delimited r \<Longrightarrow> fresh_string (stream (ws @ t @ r)) = (t, stream r)"
  by (simp add: fresh_string_def extract_string_token)

lemma ignore_token:
  "spaces ws \<Longrightarrow> token t \<Longrightarrow> delimited r \<Longrightarrow> ignore (stream (ws @ t @ r)) = stream r"
  by (simp add: ignore_def extract_string_token)

lemma delimited_spaces: "spaces ws \<Longrightarrow> ws \<noteq> [] \<Longrightarrow> delimited (ws @ r)"
  by (cases ws) (auto simp: delimited_def spaces_def)

lemma delimited_gap: "gap ws \<Longrightarrow> delimited (ws @ r)"
  by (simp add: gap_def delimited_spaces)

lemma gap_spaces: "gap ws \<Longrightarrow> spaces ws"
  by (simp add: gap_def)

lemma find_at_stream:
  "CHR ''@'' \<notin> set pre \<Longrightarrow> find_at (stream (pre @ CHR ''@'' # r)) = stream r"
proof (induction pre)
  case Nil
  show ?case by (simp add: find_at.simps [of "stream (CHR ''@'' # r)"] read_stream)
next
  case (Cons c pre)
  then show ?case
    by (auto simp: find_at.simps [of "stream (c # pre @ CHR ''@'' # r)"] read_stream ok_def)
qed

lemma isdigit_not_space: "isdigit c \<Longrightarrow> \<not> isspace c"
  by (auto simp: isdigit_def isspace_def)

lemma isdigit_not_sign: "isdigit c \<Longrightarrow> c \<noteq> CHR ''-'' \<and> c \<noteq> CHR ''+''"
  by (auto simp: isdigit_def)

lemma extract_size_t_digits:
  assumes "digits ds" and "digits_value ds < 2 ^ 64" and "r \<noteq> []" and "\<not> isdigit (hd r)"
  shows "extract_size_t (stream (ds @ r)) = (Some (word_of_int (digits_value ds)), stream r)"
proof -
  obtain d ds' where ds: "ds = d # ds'" and d: "isdigit d"
    using assms(1) by (cases ds) (auto simp: digits_def)
  obtain c r' where r: "r = c # r'" and c: "\<not> isdigit c"
    using assms(3,4) by (cases r) auto
  have all: "\<forall>x \<in> set ds. isdigit x"
    using assms(1) by (simp add: digits_def)
  have "sentry (stream (ds @ r)) = (True, stream (ds @ r))"
    using ds d by (simp add: sentry_def good_def isdigit_not_space)
  moreover have "take 1 (ds @ r) \<noteq> ''-''" and "take 1 (ds @ r) \<noteq> ''+''"
    using ds isdigit_not_sign [OF d] by simp_all
  moreover have "takeWhile isdigit (ds @ r) = ds" and "dropWhile isdigit (ds @ r) = r"
    using all r c by (simp_all add: takeWhile_append dropWhile_append)
  moreover have "ds \<noteq> []" using ds by simp
  ultimately show ?thesis
    using assms(2,3) by (simp add: extract_size_t_def Let_def)
qed

lemma isdigit_char_of: "n < 10 \<Longrightarrow> isdigit (char_of (48 + int n))"
  by (simp add: isdigit_def)

lemma digits_decimal: "digits (decimal n)"
proof (induction n rule: decimal.induct)
  case (1 n)
  show ?case
  proof (cases "n < 10")
    case True
    then show ?thesis
      by (simp add: decimal.simps [of n] digits_def isdigit_char_of)
  next
    case False
    have "n mod 10 < 10" by simp
    then have "isdigit (char_of (48 + int (n mod 10)))" by (rule isdigit_char_of)
    then show ?thesis
      using 1 False by (simp add: decimal.simps [of n] digits_def)
  qed
qed

lemma digits_value_snoc: "digits_value (ds @ [c]) = 10 * digits_value ds + (of_char c - 48)"
  by (simp add: digits_value_def)

lemma digits_value_decimal: "digits_value (decimal n) = int n"
proof (induction n rule: decimal.induct)
  case (1 n)
  show ?case
  proof (cases "n < 10")
    case True
    then show ?thesis
      by (simp add: decimal.simps [of n] digits_value_def)
  next
    case False
    have "n mod 10 < 10" by simp
    then have "of_char (char_of (48 + int (n mod 10))) = 48 + int (n mod 10)"
      by simp
    then show ?thesis
      using 1 False by (simp add: decimal.simps [of n] digits_value_snoc zmod_int zdiv_int)
  qed
qed

lemma not_digit_after:
  assumes "spaces ws" and "token t" and "\<not> isdigit (hd t)"
  shows "ws @ t @ r \<noteq> [] \<and> \<not> isdigit (hd (ws @ t @ r))"
proof (cases ws)
  case Nil
  then show ?thesis using assms by (cases t) (auto simp: token_def)
next
  case (Cons w ws')
  then have "isspace w" using assms(1) by (simp add: spaces_def)
  then have "\<not> isdigit w" using isdigit_not_space by blast
  then show ?thesis using Cons by simp
qed

lemma arg_line_tokens:
  assumes num: "digits ds" "digits_value ds < 2 ^ 64"
    and t1: "spaces ws1" "token t1" "\<not> isdigit (hd t1)"
    and t2: "gap ws2" "token t2"
    and t3: "gap ws3" "token e"
    and t4: "gap ws4" "token t4"
    and t5: "gap ws5" "token t5"
    and r: "delimited r"
  shows "arg_line k
           (stream (c1 # c2 # ds @ ws1 @ t1 @ ws2 @ t2 @ ws3 @ e @ ws4 @ t4 @ ws5 @ t5 @ r)) =
         Inr (k\<lparr>ptrArgInfos := ptrArgInfos k @ [(to_int (word_of_int (digits_value ds)), e)]\<rparr>,
              stream r)"
proof -
  define r5 where "r5 = ws5 @ t5 @ r"
  define r4 where "r4 = ws4 @ t4 @ r5"
  define r3 where "r3 = ws3 @ e @ r4"
  define r2 where "r2 = ws2 @ t2 @ r3"
  define r1 where "r1 = ws1 @ t1 @ r2"
  have d5: "delimited r5" and d4: "delimited r4" and d3: "delimited r3" and d2: "delimited r2"
    using t2 t3 t4 t5 by (simp_all add: r5_def r4_def r3_def r2_def delimited_gap)
  have s2: "snd (read (snd (read (stream (c1 # c2 # ds @ r1))))) = stream (ds @ r1)"
    by (simp add: read_stream)
  have nd: "r1 \<noteq> []" "\<not> isdigit (hd r1)"
    using not_digit_after [OF t1, of r2] by (simp_all add: r1_def)
  have s3: "extract_size_t (stream (ds @ r1)) = (Some (word_of_int (digits_value ds)), stream r1)"
    using num nd by (rule extract_size_t_digits)
  have s4: "ignore (stream r1) = stream r2"
    unfolding r1_def using t1(1,2) d2 by (rule ignore_token)
  have s5: "ignore (stream r2) = stream r3"
    unfolding r2_def using gap_spaces [OF t2(1)] t2(2) d3 by (rule ignore_token)
  have s6: "fresh_string (stream r3) = (e, stream r4)"
    unfolding r3_def using gap_spaces [OF t3(1)] t3(2) d4 by (rule fresh_string_token)
  have s7: "ignore (stream r4) = stream r5"
    unfolding r4_def using gap_spaces [OF t4(1)] t4(2) d5 by (rule ignore_token)
  have s8: "ignore (stream r5) = stream r"
    unfolding r5_def using gap_spaces [OF t5(1)] t5(2) r by (rule ignore_token)
  have "arg_line k (stream (c1 # c2 # ds @ r1)) =
        Inr (k\<lparr>ptrArgInfos := ptrArgInfos k @ [(to_int (word_of_int (digits_value ds)), e)]\<rparr>,
             stream r)"
    by (simp add: arg_line_def s2 s3 s4 s5 s6 s7 s8)
  then show ?thesis
    by (simp add: r1_def r2_def r3_def r4_def r5_def)
qed

lemma header_tokens:
  assumes pre: "CHR ''@'' \<notin> set pre"
    and name: "token (name @ [c1, c2])" "length name + 2 < 2 ^ 64"
    and t1: "gap ws1" "token t1"
    and t2: "gap ws2" "token t2"
    and t3: "gap ws3" "token e"
    and r: "delimited r"
  shows "header (stream (pre @ CHR ''@'' # name @ c1 # c2 # ws1 @ t1 @ ws2 @ t2 @ ws3 @ e @ r)) =
         Some (Inr (\<lparr>funcName = name, memoryEffect = e, ptrArgInfos = []\<rparr>, stream r))"
proof -
  define r3 where "r3 = ws3 @ e @ r"
  define r2 where "r2 = ws2 @ t2 @ r3"
  define r1 where "r1 = ws1 @ t1 @ r2"
  have d3: "delimited r3" and d2: "delimited r2" and d1: "delimited r1"
    using t1 t2 t3 by (simp_all add: r3_def r2_def r1_def delimited_gap)
  have s1: "find_at (stream (pre @ CHR ''@'' # (name @ [c1, c2]) @ r1)) =
            stream ((name @ [c1, c2]) @ r1)"
    using pre by (rule find_at_stream)
  have s2: "fresh_string (stream ([] @ (name @ [c1, c2]) @ r1)) = (name @ [c1, c2], stream r1)"
    using _ name(1) d1 by (rule fresh_string_token) (simp add: spaces_def)
  have len: "string_size (name @ [c1, c2]) - 2 = (word_of_nat (length name) :: 64 word)"
    by (simp add: string_size_def)
  have "uint (word_of_nat (length name) :: 64 word) = int (length name)"
    using name(2) by (simp add: uint_nat unat_of_nat)
  then have s3: "erase (name @ [c1, c2]) (string_size (name @ [c1, c2]) - 2) = Inr name"
    by (simp add: len erase_def)
  have s4: "ignore (stream r1) = stream r2"
    unfolding r1_def using gap_spaces [OF t1(1)] t1(2) d2 by (rule ignore_token)
  have s5: "ignore (stream r2) = stream r3"
    unfolding r2_def using gap_spaces [OF t2(1)] t2(2) d3 by (rule ignore_token)
  have s6: "fresh_string (stream r3) = (e, stream r)"
    unfolding r3_def using gap_spaces [OF t3(1)] t3(2) r by (rule fresh_string_token)
  have "header (stream (pre @ CHR ''@'' # (name @ [c1, c2]) @ r1)) =
        Some (Inr (\<lparr>funcName = name, memoryEffect = e, ptrArgInfos = []\<rparr>, stream r))"
    using s2 s3 by (simp add: header_def s1 ok_def s4 s5 s6 del: append_assoc)
  then show ?thesis
    by (simp add: r1_def r2_def r3_def)
qed

lemma token_Arg: "token ''Arg''" and token_Function: "token ''Function''"
  by (simp_all add: token_def isspace_def)

lemma read_args_Arg:
  assumes kw: "spaces ws0" "isspace c1"
    and num: "digits ds" "digits_value ds < 2 ^ 64"
    and t1: "spaces ws1" "token t1" "\<not> isdigit (hd t1)"
    and t2: "gap ws2" "token t2"
    and t3: "gap ws3" "token e"
    and t4: "gap ws4" "token t4"
    and t5: "gap ws5" "token t5"
    and r: "delimited r"
  shows "read_args k
           (stream (ws0 @ ''Arg'' @ c1 # c2 # ds @ ws1 @ t1 @ ws2 @ t2 @ ws3 @ e @ ws4 @ t4 @
                    ws5 @ t5 @ r)) =
         read_args
           (k\<lparr>ptrArgInfos := ptrArgInfos k @ [(to_int (word_of_int (digits_value ds)), e)]\<rparr>)
           (stream r)"
proof -
  define line where "line = c1 # c2 # ds @ ws1 @ t1 @ ws2 @ t2 @ ws3 @ e @ ws4 @ t4 @ ws5 @ t5 @ r"
  have "delimited line"
    using kw(2) by (simp add: line_def delimited_def)
  with kw(1) token_Arg
  have s1: "fresh_string (stream (ws0 @ ''Arg'' @ line)) = (''Arg'', stream line)"
    by (rule fresh_string_token)
  have s2: "arg_line k (stream line) =
      Inr (k\<lparr>ptrArgInfos := ptrArgInfos k @ [(to_int (word_of_int (digits_value ds)), e)]\<rparr>,
           stream r)"
    unfolding line_def using num t1 t2 t3 t4 t5 r by (rule arg_line_tokens)
  have "read_args k (stream (ws0 @ ''Arg'' @ line)) =
        read_args
          (k\<lparr>ptrArgInfos := ptrArgInfos k @ [(to_int (word_of_int (digits_value ds)), e)]\<rparr>)
          (stream r)"
    by (subst read_args.simps) (use s1 s2 in \<open>simp add: ok_def\<close>)
  then show ?thesis by (simp add: line_def)
qed

lemma read_args_Function:
  assumes "spaces ws" and "delimited r"
  shows "read_args k (stream (ws @ ''Function'' @ r)) = Inr (k, stream r)"
proof -
  have "fresh_string (stream (ws @ ''Function'' @ r)) = (''Function'', stream r)"
    using assms(1) token_Function assms(2) by (rule fresh_string_token)
  then show ?thesis
    by (subst read_args.simps) simp
qed

lemma read_args_end:
  assumes "spaces ws"
  shows "read_args k (stream ws) = Inr (k, \<lparr>buf = [], eofbit = True, failbit = True\<rparr>)"
proof -
  have "dropWhile isspace ws = []"
    using assms by (simp add: spaces_def)
  then have "fresh_string (stream ws) = ([], \<lparr>buf = [], eofbit = True, failbit = True\<rparr>)"
    by (simp add: fresh_string_def extract_string_def sentry_def good_def)
  then show ?thesis
    by (subst read_args.simps) (simp add: ok_def)
qed

section \<open>Parsing a rendered report\<close>

lemma spaces_simps:
  "spaces []" "spaces [CHR 0x0A]" "spaces [CHR 0x09]" "spaces '' ''" "spaces ''  ''"
  by (simp_all add: spaces_def isspace_def)

lemma gap_simps: "gap [CHR 0x0A]" "gap [CHR 0x09]" "gap '' ''" "gap ''  ''"
  by (simp_all add: gap_def spaces_def isspace_def)

lemma token_simps:
  "token '':''" "token ''Effect:''" "token ''Capture:''" "token ''Memory''"
  by (simp_all add: token_def isspace_def)

lemma read_args_render_arg:
  assumes "wf_arg a"
  shows "read_args k (stream (CHR 0x0A # render_arg a @ r)) =
         read_args (k\<lparr>ptrArgInfos := ptrArgInfos k @ [stored_arg a]\<rparr>) (stream (CHR 0x0A # r))"
proof -
  have num: "digits (decimal (arg_index a))" "digits_value (decimal (arg_index a)) < 2 ^ 64"
    using assms by (simp_all add: digits_decimal digits_value_decimal wf_arg_def)
  have e: "token (arg_effect a)" and c: "token (arg_capture a)"
    using assms by (simp_all add: wf_arg_def)
  have colon: "\<not> isdigit (hd '':'')"
    by (simp add: isdigit_def)
  have d: "delimited (CHR 0x0A # r)"
    by (simp add: delimited_def isspace_def)
  have sp: "isspace CHR '' ''"
    by (simp add: isspace_def)
  have "read_args k
          (stream ([CHR 0x0A] @ ''Arg'' @ CHR '' '' # CHR ''#'' # decimal (arg_index a) @ [] @
                   '':'' @ [CHR 0x09] @ ''Effect:'' @ '' '' @ arg_effect a @ ''  '' @
                   ''Capture:'' @ '' '' @ arg_capture a @ CHR 0x0A # r)) =
        read_args
          (k\<lparr>ptrArgInfos := ptrArgInfos k @
                [(to_int (word_of_int (digits_value (decimal (arg_index a)))), arg_effect a)]\<rparr>)
          (stream (CHR 0x0A # r))"
    using spaces_simps(2) sp num spaces_simps(1) token_simps(1) colon gap_simps(2) token_simps(2)
      gap_simps(3) e gap_simps(4) token_simps(3) gap_simps(3) c d
    by (rule read_args_Arg)
  then show ?thesis
    by (simp add: render_arg_def stored_arg_def digits_value_decimal)
qed

lemma read_args_render_args:
  assumes "\<forall>a \<in> set as. wf_arg a"
  shows "read_args k (stream (CHR 0x0A # concat (map render_arg as) @ r)) =
         read_args (k\<lparr>ptrArgInfos := ptrArgInfos k @ map stored_arg as\<rparr>) (stream (CHR 0x0A # r))"
  using assms
proof (induction as arbitrary: k)
  case Nil
  show ?case by simp
next
  case (Cons a as)
  have "read_args k (stream (CHR 0x0A # render_arg a @ concat (map render_arg as) @ r)) =
        read_args (k\<lparr>ptrArgInfos := ptrArgInfos k @ [stored_arg a]\<rparr>)
          (stream (CHR 0x0A # concat (map render_arg as) @ r))"
    using Cons.prems by (simp add: read_args_render_arg)
  then show ?case
    using Cons.IH [of "k\<lparr>ptrArgInfos := ptrArgInfos k @ [stored_arg a]\<rparr>"] Cons.prems by simp
qed

lemma header_render:
  assumes "wf_block b" and "CHR ''@'' \<notin> set pre"
  shows "header (stream (pre @ CHR ''@'' # block_body b @ r)) =
         Some (Inr (\<lparr>funcName = mangled b, memoryEffect = block_effect b, ptrArgInfos = []\<rparr>,
                    stream (CHR 0x0A # concat (map render_arg (arg_entries b)) @ r)))"
proof -
  have name: "token (mangled b @ [CHR '')'', CHR '':''])" "length (mangled b) + 2 < 2 ^ 64"
    using assms(1) by (auto simp: wf_block_def token_def isspace_def)
  have e: "token (block_effect b)"
    using assms(1) by (simp add: wf_block_def)
  have d: "delimited (CHR 0x0A # concat (map render_arg (arg_entries b)) @ r)"
    by (simp add: delimited_def isspace_def)
  have "header
          (stream (pre @ CHR ''@'' # mangled b @ CHR '')'' # CHR '':'' # [CHR 0x0A] @ ''Memory'' @
                   '' '' @ ''Effect:'' @ '' '' @ block_effect b @
                   CHR 0x0A # concat (map render_arg (arg_entries b)) @ r)) =
        Some (Inr (\<lparr>funcName = mangled b, memoryEffect = block_effect b, ptrArgInfos = []\<rparr>,
                   stream (CHR 0x0A # concat (map render_arg (arg_entries b)) @ r)))"
    using assms(2) name gap_simps(1) token_simps(4) gap_simps(3) token_simps(2) gap_simps(3) e d
    by (rule header_tokens)
  then show ?thesis
    by (simp add: block_body_def)
qed

lemma parse_loop_failed: "\<not> ok s \<Longrightarrow> parse_loop m s = Inr m"
  by (subst parse_loop.simps) simp

lemma parse_loop_block_last:
  assumes "wf_block b" and "CHR ''@'' \<notin> set pre"
  shows "parse_loop m (stream (pre @ CHR ''@'' # block_body b)) =
         Inr (m(mangled b \<mapsto> stored_block b))"
proof -
  let ?k = "\<lparr>funcName = mangled b, memoryEffect = block_effect b, ptrArgInfos = []\<rparr>"
  have wf: "\<forall>a \<in> set (arg_entries b). wf_arg a"
    using assms(1) by (simp add: wf_block_def)
  have h: "header (stream (pre @ CHR ''@'' # block_body b)) =
           Some (Inr (?k, stream (CHR 0x0A # concat (map render_arg (arg_entries b)))))"
    using header_render [OF assms, of "[]"] by simp
  have "read_args ?k (stream (CHR 0x0A # concat (map render_arg (arg_entries b)))) =
        read_args (stored_block b) (stream [CHR 0x0A])"
    using read_args_render_args [OF wf, of ?k "[]"] by (simp add: stored_block_def)
  then have a: "read_args ?k (stream (CHR 0x0A # concat (map render_arg (arg_entries b)))) =
        Inr (stored_block b, \<lparr>buf = [], eofbit = True, failbit = True\<rparr>)"
    by (simp add: read_args_end spaces_simps)
  have "parse_loop (m(mangled b \<mapsto> stored_block b)) \<lparr>buf = [], eofbit = True, failbit = True\<rparr> =
        Inr (m(mangled b \<mapsto> stored_block b))"
    by (rule parse_loop_failed) (simp add: ok_def)
  then show ?thesis
    by (subst parse_loop.simps) (simp add: h a ok_def stored_block_def)
qed

lemma parse_loop_block_next:
  assumes "wf_block b" and "CHR ''@'' \<notin> set pre" and "delimited r"
  shows "parse_loop m (stream (pre @ CHR ''@'' # block_body b @ ''Function'' @ r)) =
         parse_loop (m(mangled b \<mapsto> stored_block b)) (stream r)"
proof -
  let ?k = "\<lparr>funcName = mangled b, memoryEffect = block_effect b, ptrArgInfos = []\<rparr>"
  let ?args = "concat (map render_arg (arg_entries b))"
  have wf: "\<forall>a \<in> set (arg_entries b). wf_arg a"
    using assms(1) by (simp add: wf_block_def)
  have h: "header (stream (pre @ CHR ''@'' # block_body b @ ''Function'' @ r)) =
           Some (Inr (?k, stream (CHR 0x0A # ?args @ ''Function'' @ r)))"
    using assms(1,2) by (rule header_render)
  have "read_args ?k (stream (CHR 0x0A # ?args @ ''Function'' @ r)) =
        read_args (stored_block b) (stream ([CHR 0x0A] @ ''Function'' @ r))"
    using read_args_render_args [OF wf, of ?k "''Function'' @ r"] by (simp add: stored_block_def)
  also have "\<dots> = Inr (stored_block b, stream r)"
    using spaces_simps(2) assms(3) by (rule read_args_Function)
  finally have a: "read_args ?k (stream (CHR 0x0A # ?args @ ''Function'' @ r)) =
                   Inr (stored_block b, stream r)" .
  show ?thesis
    by (subst parse_loop.simps) (use h a in \<open>simp add: ok_def stored_block_def\<close>)
qed

lemma table_of_Nil: "table_of m [] = m"
  by (simp add: table_of_def)

lemma table_of_Cons: "table_of m (b # bs) = table_of (m(mangled b \<mapsto> stored_block b)) bs"
  by (simp add: table_of_def)

lemma table_of_single: "table_of m [b] = m(mangled b \<mapsto> stored_block b)"
  by (simp add: table_of_def)

lemma parse_loop_render:
  assumes "\<forall>b \<in> set (b # bs). wf_block b" and "CHR ''@'' \<notin> set pre"
  shows "parse_loop m (stream (pre @ CHR ''@'' # block_body b @ render_report bs)) =
         Inr (table_of m (b # bs))"
  using assms
proof (induction bs arbitrary: m b pre)
  case Nil
  have "parse_loop m (stream (pre @ CHR ''@'' # block_body b)) =
        Inr (m(mangled b \<mapsto> stored_block b))"
    using Nil.prems by (intro parse_loop_block_last) simp_all
  then show ?case
    by (simp only: render_report_def table_of_single list.map concat.simps append_Nil2)
next
  case (Cons b' bs)
  let ?pre = "'' '' @ signature b' @ '' (''"
  have pre': "CHR ''@'' \<notin> set ?pre"
    using Cons.prems(1) by (simp add: wf_block_def)
  have d: "delimited (?pre @ CHR ''@'' # block_body b' @ render_report bs)"
    by (simp add: delimited_def isspace_def)
  have "block_body b @ render_report (b' # bs) =
        block_body b @ ''Function'' @ ?pre @ CHR ''@'' # block_body b' @ render_report bs"
    by (simp add: render_report_def render_block_def)
  then have "parse_loop m (stream (pre @ CHR ''@'' # block_body b @ render_report (b' # bs))) =
        parse_loop (m(mangled b \<mapsto> stored_block b))
          (stream (?pre @ CHR ''@'' # block_body b' @ render_report bs))"
    using parse_loop_block_next [OF _ Cons.prems(2) d, of b m] Cons.prems(1) by simp
  also have "\<dots> = Inr (table_of (m(mangled b \<mapsto> stored_block b)) (b' # bs))"
    using Cons.prems(1) pre' by (intro Cons.IH) simp_all
  finally show ?case
    by (simp add: table_of_Cons)
qed

lemma MemRedAnalysisParser_render:
  assumes "\<forall>b \<in> set bs. wf_block b"
  shows "MemRedAnalysisParser (Some (render_report bs)) = Inr (table_of Map.empty bs)"
proof (cases bs)
  case Nil
  have "read (stream []) = (None, \<lparr>buf = [], eofbit = True, failbit = True\<rparr>)"
    by (simp add: read_def good_def)
  then have "header (stream []) = None"
    by (simp add: header_def find_at.simps [of "stream []"] ok_def)
  then have "parse_loop Map.empty (stream []) = Inr Map.empty"
    by (subst parse_loop.simps) simp
  then show ?thesis
    using Nil by (simp add: MemRedAnalysisParser_def ifstream_def render_report_def table_of_Nil)
next
  case (Cons b bs')
  let ?pre = "''Function '' @ signature b @ '' (''"
  have "CHR ''@'' \<notin> set ?pre"
    using assms Cons by (simp add: wf_block_def)
  then have "parse_loop Map.empty (stream (?pre @ CHR ''@'' # block_body b @ render_report bs')) =
             Inr (table_of Map.empty (b # bs'))"
    using assms Cons by (intro parse_loop_render) simp_all
  then show ?thesis
    using Cons by (simp add: MemRedAnalysisParser_def ifstream_def render_report_def render_block_def)
qed


section \<open>Boundary cases of the parser\<close>

lemma MemRedAnalysisParser_None: "MemRedAnalysisParser None = Inr Map.empty"
  by (simp add: MemRedAnalysisParser_def ifstream_def parse_loop_failed ok_def)

lemma uint_word_of_nat_64:
  assumes "n < 2 ^ 64"
  shows "uint (word_of_nat n :: 64 word) = int n"
proof -
  have "n < 2 ^ LENGTH(64)"
    using assms by simp
  then have "n mod 2 ^ LENGTH(64) = n"
    by (rule mod_less)
  then show ?thesis
    by (simp only: uint_nat unat_of_nat)
qed

lemma erase_short:
  assumes "length tok < 2"
  shows "erase tok (string_size tok - 2) = Inl OutOfRange"
proof -
  have "length tok = 0 \<or> length tok = 1"
    using assms by linarith
  then have "uint (string_size tok - 2) = 2 ^ 64 - 2 + int (length tok)"
    by (auto simp: string_size_def unsigned_minus_1_eq_mask mask_eq_exp_minus_1)
  then show ?thesis
    using assms by (simp add: erase_def)
qed

lemma erase_long:
  assumes "2 \<le> length tok" and "length tok < 2 ^ 64"
  shows "erase tok (string_size tok - 2) = Inr (take (length tok - 2) tok)"
proof -
  have "string_size tok - 2 = word_of_nat (length tok - 2)"
    using assms(1) by (simp add: string_size_def of_nat_diff)
  moreover have "length tok - 2 < 2 ^ 64"
    using assms(2) by (rule less_imp_diff_less)
  ultimately have "uint (string_size tok - 2) = int (length tok - 2)"
    by (simp only: uint_word_of_nat_64)
  then show ?thesis
    by (simp add: erase_def)
qed

section \<open>Tables of rendered reports\<close>



lemma table_of_append: "table_of m (xs @ ys) = table_of (table_of m xs) ys"
  by (simp add: table_of_def)

lemma table_of_other: "\<forall>b \<in> set bs. mangled b \<noteq> n \<Longrightarrow> table_of m bs n = m n"
  by (induction bs arbitrary: m) (auto simp: table_of_Nil table_of_Cons)

lemma table_of_last:
  assumes "\<forall>x \<in> set post. mangled x \<noteq> mangled b"
  shows "table_of m (xs @ b # post) (mangled b) = Some (stored_block b)"
proof -
  have "table_of m (xs @ b # post) (mangled b) =
        table_of ((table_of m xs)(mangled b \<mapsto> stored_block b)) post (mangled b)"
    by (simp only: table_of_append table_of_Cons)
  also have "\<dots> = ((table_of m xs)(mangled b \<mapsto> stored_block b)) (mangled b)"
    using assms by (rule table_of_other)
  finally show ?thesis by simp
qed


lemma to_int_small:
  assumes "n < 2 ^ 31"
  shows "to_int (word_of_nat n) = int n"
proof -
  have n32: "n < 2 ^ 32"
    using assms by (rule less_trans) simp
  have n64: "take_bit 64 n = n"
    by (rule take_bit_nat_eq_self) (use n32 in \<open>rule less_trans\<close>, simp)
  have u: "(ucast (word_of_nat n :: 64 word) :: 32 word) = word_of_nat n"
    by (simp add: unsigned_of_nat n64)
  have "take_bit 32 n = n"
    using n32 by (rule take_bit_nat_eq_self)
  then have "uint (word_of_nat n :: 32 word) = int n"
    by (simp add: uint_nat unat_of_nat take_bit_eq_mod)
  moreover have "signed_take_bit 31 (int n) = int n"
    by (rule signed_take_bit_int_eq_self) (use assms in simp_all)
  ultimately have "sint (word_of_nat n :: 32 word) = int n"
    by (simp add: sint_uint)
  then show ?thesis
    by (simp add: to_int_def u)
qed

lemma stored_args_small:
  assumes "\<forall>a \<in> set as. arg_index a < 2 ^ 31"
  shows "map stored_arg as = map (\<lambda>a. (int (arg_index a), arg_effect a)) as"
  using assms by (simp add: stored_arg_def to_int_small)


section \<open>The loop over the nodes\<close>

lemma analyze_nodes_append:
  "analyze_nodes table rt i pre = (out, None) \<Longrightarrow>
   analyze_nodes table rt i (pre @ rest) =
     (case analyze_nodes table rt (i + length pre) rest of (out', r) \<Rightarrow> (out @ out', r))"
proof (induction pre arbitrary: i out)
  case Nil
  then show ?case by (simp split: prod.splits)
next
  case (Cons u pre)
  obtain o1 r1 where n: "analyze_node table rt i u = (o1, r1)"
    by (cases "analyze_node table rt i u")
  have r1: "r1 = None"
    using Cons.prems n by (cases r1) auto
  obtain o2 r2 where p: "analyze_nodes table rt (i + 1) pre = (o2, r2)"
    by (cases "analyze_nodes table rt (i + 1) pre")
  have r2: "r2 = None" and out: "out = o1 @ o2"
    using Cons.prems n r1 p by auto
  have "analyze_nodes table rt (i + 1) (pre @ rest) =
        (case analyze_nodes table rt (i + 1 + length pre) rest of (out', r) \<Rightarrow> (o2 @ out', r))"
    using Cons.IH [of "i + 1" o2] p r2 by simp
  then show ?case
    using n r1 out by (simp split: prod.splits)
qed

lemma analyze_node_unknown:
  assumes "cudaGraphKernelNodeGetParams rt u = Inr params"
    and "cudaFuncGetName rt (func params) = Inr s" and "table s = None"
  shows "analyze_node table rt i u = ([NodeLine i], Some (CouldNotFindKernel s))"
  using assms by (simp add: analyze_node_def)

lemma example_report_table: "MemRedAnalysisParser (Some example_report) = Inr example_table"
proof -
  let ?b = "\<lparr>signature = ''foo(int, char, long long, int*, int*)'', mangled = ''foo'',
             block_effect = ''ArgMemOnly'',
             arg_entries = [\<lparr>arg_index = 3, arg_effect = ''ReadOnly'', arg_capture = ''No''\<rparr>]\<rparr>"
  have "wf_block ?b"
    by (simp add: wf_block_def wf_arg_def token_def isspace_def)
  then have "MemRedAnalysisParser (Some (render_report [?b])) = Inr (table_of Map.empty [?b])"
    by (intro MemRedAnalysisParser_render) simp
  then show ?thesis
    by (simp add: render_report_def render_block_def block_body_def render_arg_def decimal.simps
          char_of_def table_of_single stored_block_def stored_arg_def to_int_def example_report_def
          example_table_def)
qed

section \<open>The claims\<close>

text \<open>
  C1. A report of exactly one function block with name \<open>F\<close>, memory effect \<open>E\<close> and the
  argument lines \<open>0: ReadOnly\<close> and \<open>2: ReadWrite\<close> gives a table with exactly one entry:
  it is stored under \<open>F\<close> and holds \<open>F\<close>, \<open>E\<close> and the list
  \<open>[(0, ReadOnly), (2, ReadWrite)]\<close>, in this order. The signature text and the two
  capture values are arbitrary.
\<close>

theorem one_block_round_trip:
  assumes "CHR ''@'' \<notin> set sig" and "\<forall>c \<in> set F. \<not> isspace c" and "length F + 2 < 2 ^ 64"
    and "token E" and "token c0" and "token c2"
  shows "MemRedAnalysisParser
           (Some (render_report
              [\<lparr>signature = sig, mangled = F, block_effect = E,
                arg_entries =
                  [\<lparr>arg_index = 0, arg_effect = ''ReadOnly'', arg_capture = c0\<rparr>,
                   \<lparr>arg_index = 2, arg_effect = ''ReadWrite'', arg_capture = c2\<rparr>]\<rparr>])) =
         Inr [F \<mapsto> \<lparr>funcName = F, memoryEffect = E,
                        ptrArgInfos = [(0, ''ReadOnly''), (2, ''ReadWrite'')]\<rparr>]"
proof -
  let ?b = "\<lparr>signature = sig, mangled = F, block_effect = E,
             arg_entries =
               [\<lparr>arg_index = 0, arg_effect = ''ReadOnly'', arg_capture = c0\<rparr>,
                \<lparr>arg_index = 2, arg_effect = ''ReadWrite'', arg_capture = c2\<rparr>]\<rparr>"
  have ro: "token ''ReadOnly''" and rw: "token ''ReadWrite''"
    by (simp_all add: token_def isspace_def)
  have "wf_block ?b"
    using assms ro rw by (simp add: wf_block_def wf_arg_def)
  then have "MemRedAnalysisParser (Some (render_report [?b])) = Inr (table_of Map.empty [?b])"
    by (intro MemRedAnalysisParser_render) simp
  moreover have "stored_block ?b =
      \<lparr>funcName = F, memoryEffect = E, ptrArgInfos = [(0, ''ReadOnly''), (2, ''ReadWrite'')]\<rparr>"
    by (simp add: stored_block_def stored_arg_def to_int_def)
  ultimately show ?thesis
    by (simp only: table_of_single function_block.simps)
qed

text \<open>C1 on a report for the kernel \<^verbatim>\<open>foo\<close> of line 123.\<close>

theorem one_block_round_trip_witness:
  "MemRedAnalysisParser
     (Some (''Function void foo(int, char, long long, int*, int*) (@_Z3fooicxPiS_):'' @
            [CHR 0x0A] @ ''Memory Effect: ArgMemOnly'' @ [CHR 0x0A] @
            ''Arg #0:'' @ [CHR 0x09] @ ''Effect: ReadOnly  Capture: No'' @ [CHR 0x0A] @
            ''Arg #2:'' @ [CHR 0x09] @ ''Effect: ReadWrite  Capture: Yes'' @ [CHR 0x0A])) =
   Inr [''_Z3fooicxPiS_'' \<mapsto>
          \<lparr>funcName = ''_Z3fooicxPiS_'', memoryEffect = ''ArgMemOnly'',
           ptrArgInfos = [(0, ''ReadOnly''), (2, ''ReadWrite'')]\<rparr>]"
  using one_block_round_trip [of "''void foo(int, char, long long, int*, int*)''"
      "''_Z3fooicxPiS_''" "''ArgMemOnly''" "''No''" "''Yes''"]
  by (simp add: token_def isspace_def render_report_def render_block_def block_body_def
        render_arg_def decimal.simps char_of_def)

text \<open>
  C2, as stated: with \<^verbatim>\<open>foo\<close> in the table with the single argument entry
  \<open>(3, ReadOnly)\<close>, and one node for \<^verbatim>\<open>foo\<close> whose slot 3 holds a pointer to a pointer to
  the integer 42, the entry printed for the argument carries the value 42, read through
  two dereferences. On the example the line printed carries the pointer held in the
  slot, the address of the integer; no line carries 42.
\<close>

theorem value_is_integer_counterexample:
  "analyzeGraph (Some example_report) (example_runtime [0]) =
     ([NodeLine 0, FuncNameLine ''foo'', ArgLine 3 ''ReadOnly'' (Pointer 0x7000)], None) \<and>
   ArgLine 3 ''ReadOnly'' (Integer 42) \<notin>
     set (fst (analyzeGraph (Some example_report) (example_runtime [0])))"
  by (simp add: analyzeGraph_def example_report_table example_table_def example_runtime_def
        analyze_node_def kernel_param_def)

text \<open>
  C2, amended: under the same conditions \<^verbatim>\<open>analyzeGraph\<close> prints exactly one node report,
  \<^verbatim>\<open>Node 0:\<close>, the function name of the table entry, and one argument line with index 3,
  effect \<open>ReadOnly\<close> and, as value, the pointer \<open>p\<close> stored in slot 3: the slot is
  taken as the address of an \<^verbatim>\<open>int *\<close> and dereferenced once. The integer 42 that \<open>p\<close>
  points at is never read.
\<close>

theorem value_is_pointer_argument:
  assumes "MemRedAnalysisParser file = Inr table"
    and "table ''foo'' = Some k" and "ptrArgInfos k = [(3, ''ReadOnly'')]"
    and "cudaGraphGetNodes rt = Inr [u]"
    and "cudaGraphKernelNodeGetParams rt u = Inr params"
    and "cudaFuncGetName rt (func params) = Inr ''foo''"
    and "3 < length (kernelParams params)"
    and "memory rt (kernelParams params ! 3) = Some (Pointer p)"
    and "memory rt p = Some (Integer 42)"
  shows "analyzeGraph file rt =
           ([NodeLine 0, FuncNameLine (funcName k), ArgLine 3 ''ReadOnly'' (Pointer p)], None)"
  using assms by (simp add: analyzeGraph_def analyze_node_def kernel_param_def)

text \<open>C2, amended, on the example.\<close>

theorem value_is_pointer_argument_witness:
  "analyzeGraph (Some example_report) (example_runtime [0]) =
     ([NodeLine 0, FuncNameLine ''foo'', ArgLine 3 ''ReadOnly'' (Pointer 0x7000)], None)"
  using value_is_pointer_argument [of "Some example_report" example_table
      "\<lparr>funcName = ''foo'', memoryEffect = ''ArgMemOnly'', ptrArgInfos = [(3, ''ReadOnly'')]\<rparr>"
      "example_runtime [0]" 0
      "\<lparr>func = 0, kernelParams = [0x100, 0x104, 0x108, 0x110, 0x118]\<rparr>" "0x7000"]
  by (simp add: example_report_table example_runtime_def example_table_def)

text \<open>
  C3, as stated: parsing a path whose file is missing or unreadable fails with an error
  of its own, returns no table, and annotation does not proceed. The constructor never
  looks at whether the file was opened: the failed stream ends the loop of line 35 at
  once, and the constructor returns with the empty table.
\<close>

theorem missing_file_counterexample:
  "MemRedAnalysisParser None = Inr Map.empty \<and> \<not> isl (MemRedAnalysisParser None)"
  by (simp add: MemRedAnalysisParser_None)

text \<open>
  C3, amended: for a file that is missing or unreadable the constructor returns the empty
  table and no error. \<^verbatim>\<open>analyzeGraph\<close> goes on to the nodes: with no node it prints
  nothing and returns; otherwise it prints \<^verbatim>\<open>Node 0:\<close> and stops at the first node, with
  \<^verbatim>\<open>Could not find kernel\<close> for its name unless a CUDA call fails before.
\<close>

theorem missing_file_empty_table:
  "MemRedAnalysisParser None = Inr Map.empty \<and>
   analyzeGraph None rt =
     (case cudaGraphGetNodes rt of
        Inl err \<Rightarrow> ([], Some (CudaError err))
      | Inr [] \<Rightarrow> ([], None)
      | Inr (u # nodes) \<Rightarrow>
          (case cudaGraphKernelNodeGetParams rt u of
             Inl err \<Rightarrow> ([NodeLine 0], Some (CudaError err))
           | Inr params \<Rightarrow>
               (case cudaFuncGetName rt (func params) of
                  Inl err \<Rightarrow> ([NodeLine 0], Some (CudaError err))
                | Inr s \<Rightarrow> ([NodeLine 0], Some (CouldNotFindKernel s)))))"
  by (simp add: MemRedAnalysisParser_None analyzeGraph_def analyze_node_def
           split: sum.splits list.splits)

text \<open>C3, amended, on a graph of one node whose kernel is \<^verbatim>\<open>foo\<close>.\<close>

theorem missing_file_empty_table_witness:
  "analyzeGraph None
     \<lparr>cudaGraphGetNodes = Inr [7],
      cudaGraphKernelNodeGetParams = (\<lambda>u. Inr \<lparr>func = 1, kernelParams = []\<rparr>),
      cudaFuncGetName = (\<lambda>f. Inr ''foo''),
      memory = Map.empty\<rparr> =
   ([NodeLine 0], Some (CouldNotFindKernel ''foo''))"
  using missing_file_empty_table
    [of "\<lparr>cudaGraphGetNodes = Inr [7],
      cudaGraphKernelNodeGetParams = (\<lambda>u. Inr \<lparr>func = 1, kernelParams = []\<rparr>),
      cudaFuncGetName = (\<lambda>f. Inr ''foo''),
      memory = Map.empty\<rparr>"]
  by simp

text \<open>
  C4, as stated: in a report with two function blocks of the same function name, the
  single entry under that name has the second block's data. The index of an argument line
  is stored in an \<^verbatim>\<open>int\<close>: for a second block with the line \<^verbatim>\<open>Arg #2147483648\<close> the
  entry holds the index \<open>- 2147483648\<close>.
\<close>

theorem index_narrowed_counterexample:
  "MemRedAnalysisParser
     (Some (''Function f(int*) (@_Z1fPi):'' @ [CHR 0x0A] @
            ''Memory Effect: ArgMemOnly'' @ [CHR 0x0A] @
            ''Arg #0:'' @ [CHR 0x09] @ ''Effect: ReadOnly  Capture: No'' @ [CHR 0x0A] @
            ''Function f(int*) (@_Z1fPi):'' @ [CHR 0x0A] @
            ''Memory Effect: AnyMem'' @ [CHR 0x0A] @
            ''Arg #2147483648:'' @ [CHR 0x09] @ ''Effect: ReadWrite  Capture: Yes'' @
            [CHR 0x0A])) =
   Inr [''_Z1fPi'' \<mapsto>
          \<lparr>funcName = ''_Z1fPi'', memoryEffect = ''AnyMem'',
           ptrArgInfos = [(- 2147483648, ''ReadWrite'')]\<rparr>] \<and>
   [(- 2147483648 :: int, ''ReadWrite'')] \<noteq> [(2147483648, ''ReadWrite'')]"
proof -
  let ?b1 = "\<lparr>signature = ''f(int*)'', mangled = ''_Z1fPi'', block_effect = ''ArgMemOnly'',
          arg_entries = [\<lparr>arg_index = 0, arg_effect = ''ReadOnly'', arg_capture = ''No''\<rparr>]\<rparr>"
  let ?b2 = "\<lparr>signature = ''f(int*)'', mangled = ''_Z1fPi'', block_effect = ''AnyMem'',
          arg_entries = [\<lparr>arg_index = 2147483648, arg_effect = ''ReadWrite'',
                          arg_capture = ''Yes''\<rparr>]\<rparr>"
  have "\<forall>b \<in> set [?b1, ?b2]. wf_block b"
    by (simp add: wf_block_def wf_arg_def token_def isspace_def)
  then have "MemRedAnalysisParser (Some (render_report [?b1, ?b2])) =
             Inr (table_of Map.empty [?b1, ?b2])"
    by (rule MemRedAnalysisParser_render)
  moreover have "table_of Map.empty [?b1, ?b2] = [mangled ?b2 \<mapsto> stored_block ?b2]"
    by (simp only: table_of_Cons table_of_Nil fun_upd_upd function_block.simps)
  ultimately show ?thesis
    by (simp add: render_report_def render_block_def block_body_def render_arg_def decimal.simps
          char_of_def stored_block_def stored_arg_def to_int_def)
qed

text \<open>
  C4, amended: in a report with two function blocks of the same function name, the later
  of them not followed by a further block of that name, the parse succeeds (the repeated
  name is no error) and the entry under that name has the later block's name and memory
  effect and its argument lines in order, each index stored as an \<^verbatim>\<open>int\<close>; when the
  indices of the later block are below \<open>2 ^ 31\<close> the entry is exactly that block's data.
  When the report consists of these two blocks, the table has this entry and no other.
\<close>

theorem same_name_last_wins:
  assumes "\<forall>b \<in> set (pre @ b1 # mid @ b2 # post). wf_block b"
    and "mangled b1 = mangled b2"
    and "\<forall>b \<in> set post. mangled b \<noteq> mangled b2"
  shows "\<exists>t k. MemRedAnalysisParser (Some (render_report (pre @ b1 # mid @ b2 # post))) = Inr t \<and>
           t (mangled b2) = Some k \<and>
           funcName k = mangled b2 \<and> memoryEffect k = block_effect b2 \<and>
           ptrArgInfos k =
             map (\<lambda>a. (to_int (word_of_nat (arg_index a)), arg_effect a)) (arg_entries b2) \<and>
           ((\<forall>a \<in> set (arg_entries b2). arg_index a < 2 ^ 31) \<longrightarrow>
              k = \<lparr>funcName = mangled b2, memoryEffect = block_effect b2,
                   ptrArgInfos =
                     map (\<lambda>a. (int (arg_index a), arg_effect a)) (arg_entries b2)\<rparr>) \<and>
           (pre = [] \<and> mid = [] \<and> post = [] \<longrightarrow> dom t = {mangled b2})"
proof (intro exI conjI impI)
  let ?bs = "pre @ b1 # mid @ b2 # post"
  show "MemRedAnalysisParser (Some (render_report ?bs)) = Inr (table_of Map.empty ?bs)"
    using assms(1) by (rule MemRedAnalysisParser_render)
  have "table_of Map.empty ((pre @ b1 # mid) @ b2 # post) (mangled b2) = Some (stored_block b2)"
    using assms(3) by (rule table_of_last)
  then show "table_of Map.empty ?bs (mangled b2) = Some (stored_block b2)"
    by simp
  show "funcName (stored_block b2) = mangled b2"
    and "memoryEffect (stored_block b2) = block_effect b2"
    and "ptrArgInfos (stored_block b2) =
         map (\<lambda>a. (to_int (word_of_nat (arg_index a)), arg_effect a)) (arg_entries b2)"
    by (simp_all add: stored_block_def stored_arg_def)
  show "stored_block b2 =
        \<lparr>funcName = mangled b2, memoryEffect = block_effect b2,
         ptrArgInfos = map (\<lambda>a. (int (arg_index a), arg_effect a)) (arg_entries b2)\<rparr>"
    if "\<forall>a \<in> set (arg_entries b2). arg_index a < 2 ^ 31"
    using stored_args_small [OF that] by (simp add: stored_block_def)
  show "dom (table_of Map.empty ?bs) = {mangled b2}"
    if "pre = [] \<and> mid = [] \<and> post = []"
  proof -
    have "table_of Map.empty ?bs = table_of Map.empty [b1, b2]"
      using that by simp
    also have "\<dots> = [mangled b2 \<mapsto> stored_block b2]"
      using assms(2) by (simp only: table_of_Cons table_of_Nil fun_upd_upd)
    finally show ?thesis by simp
  qed
qed

text \<open>
  C4, amended, on two blocks for \<^verbatim>\<open>_Z1fPi\<close> that differ in effect and argument lines; the
  later one has the lines 3 and 17.
\<close>

theorem same_name_last_wins_witness:
  "\<exists>t. MemRedAnalysisParser
     (Some (''Function f(int*) (@_Z1fPi):'' @ [CHR 0x0A] @
            ''Memory Effect: ArgMemOnly'' @ [CHR 0x0A] @
            ''Arg #0:'' @ [CHR 0x09] @ ''Effect: ReadOnly  Capture: No'' @ [CHR 0x0A] @
            ''Function f(int*) (@_Z1fPi):'' @ [CHR 0x0A] @
            ''Memory Effect: AnyMem'' @ [CHR 0x0A] @
            ''Arg #3:'' @ [CHR 0x09] @ ''Effect: ReadWrite  Capture: Yes'' @ [CHR 0x0A] @
            ''Arg #17:'' @ [CHR 0x09] @ ''Effect: ReadOnly  Capture: No'' @ [CHR 0x0A])) = Inr t \<and>
      t ''_Z1fPi'' =
        Some \<lparr>funcName = ''_Z1fPi'', memoryEffect = ''AnyMem'',
              ptrArgInfos = [(3, ''ReadWrite''), (17, ''ReadOnly'')]\<rparr> \<and>
      dom t = {''_Z1fPi''}"
proof -
  let ?b1 = "\<lparr>signature = ''f(int*)'', mangled = ''_Z1fPi'', block_effect = ''ArgMemOnly'',
          arg_entries = [\<lparr>arg_index = 0, arg_effect = ''ReadOnly'', arg_capture = ''No''\<rparr>]\<rparr>"
  let ?b2 = "\<lparr>signature = ''f(int*)'', mangled = ''_Z1fPi'', block_effect = ''AnyMem'',
          arg_entries = [\<lparr>arg_index = 3, arg_effect = ''ReadWrite'', arg_capture = ''Yes''\<rparr>,
                         \<lparr>arg_index = 17, arg_effect = ''ReadOnly'', arg_capture = ''No''\<rparr>]\<rparr>"
  have "\<forall>b \<in> set ([] @ ?b1 # [] @ ?b2 # []). wf_block b"
    by (simp add: wf_block_def wf_arg_def token_def isspace_def)
  moreover have "mangled ?b1 = mangled ?b2" and "\<forall>b \<in> set []. mangled b \<noteq> mangled ?b2"
    by simp_all
  moreover have "\<forall>a \<in> set (arg_entries ?b2). arg_index a < 2 ^ 31"
    by simp
  ultimately obtain t k
    where "MemRedAnalysisParser (Some (render_report ([] @ ?b1 # [] @ ?b2 # []))) = Inr t"
      and "t (mangled ?b2) = Some k"
      and "k = \<lparr>funcName = mangled ?b2, memoryEffect = block_effect ?b2,
                 ptrArgInfos = map (\<lambda>a. (int (arg_index a), arg_effect a)) (arg_entries ?b2)\<rparr>"
      and "dom t = {mangled ?b2}"
    using same_name_last_wins [of "[]" ?b1 "[]" ?b2 "[]"] by blast
  then show ?thesis
    by (simp add: render_report_def render_block_def block_body_def render_arg_def decimal.simps
          char_of_def)
qed

text \<open>
  C5. Whenever the parser is at the head of the argument loop, whatever the table \<open>m\<close>
  of the blocks finished so far, and the next token is read successfully and is neither
  \<^verbatim>\<open>Arg\<close> nor \<^verbatim>\<open>Function\<close>, the constructor calls \<^verbatim>\<open>abort()\<close>: the outcome is the
  failure, and no table, not even \<open>m\<close>.
\<close>

theorem unexpected_keyword_aborts:
  assumes "reaches file (AtArg m k s)" and "fresh_string s = (kw, s1)" and "ok s1"
    and "kw \<noteq> ''Arg''" and "kw \<noteq> ''Function''"
  shows "MemRedAnalysisParser file = Inl Abort"
proof -
  have "read_args k s = Inl Abort"
    using assms(2-5) by (subst read_args.simps) simp
  then show ?thesis
    using reaches_outcome [OF assms(1)] by simp
qed

text \<open>
  C5 on a report whose first block is complete and whose second block has the keyword
  \<^verbatim>\<open>Argument\<close>: the first block's entry is lost with the rest.
\<close>

theorem unexpected_keyword_aborts_witness:
  "MemRedAnalysisParser
     (Some (''Function f (@_Z1fPi):'' @ [CHR 0x0A] @ ''Memory Effect: ArgMemOnly'' @ [CHR 0x0A] @
            ''Arg #0:'' @ [CHR 0x09] @ ''Effect: ReadOnly  Capture: No'' @ [CHR 0x0A] @
            ''Function g (@_Z1gPi):'' @ [CHR 0x0A] @ ''Memory Effect: ArgMemOnly'' @ [CHR 0x0A] @
            ''Argument #0:'' @ [CHR 0x09] @ ''Effect: ReadOnly  Capture: No'' @ [CHR 0x0A])) =
   Inl Abort"
proof -
  let ?tail = "''Argument #0:'' @ [CHR 0x09] @ ''Effect: ReadOnly  Capture: No'' @ [CHR 0x0A]"
  let ?blockg = "''Function g (@_Z1gPi):'' @ [CHR 0x0A] @ ''Memory Effect: ArgMemOnly'' @ CHR 0x0A # ?tail"
  let ?line = "''Arg #0:'' @ [CHR 0x09] @ ''Effect: ReadOnly  Capture: No'' @ CHR 0x0A # ?blockg"
  let ?txt = "''Function f (@_Z1fPi):'' @ [CHR 0x0A] @ ''Memory Effect: ArgMemOnly'' @ CHR 0x0A # ?line"
  let ?kfa = "\<lparr>funcName = ''_Z1fPi'', memoryEffect = ''ArgMemOnly'', ptrArgInfos = []\<rparr>"
  let ?kfb = "\<lparr>funcName = ''_Z1fPi'', memoryEffect = ''ArgMemOnly'', ptrArgInfos = [(0, ''ReadOnly'')]\<rparr>"
  let ?kga = "\<lparr>funcName = ''_Z1gPi'', memoryEffect = ''ArgMemOnly'', ptrArgInfos = []\<rparr>"
  have p0: "reaches (Some ?txt) (AtBlock Map.empty (ifstream (Some ?txt)))"
    by (rule reaches.start)
  have "ok (ifstream (Some ?txt))"
    and "header (ifstream (Some ?txt)) = Some (Inr (?kfa, stream (CHR 0x0A # ?line)))"
    by code_simp+
  with p0 have p1: "reaches (Some ?txt) (AtArg Map.empty ?kfa (stream (CHR 0x0A # ?line)))"
    by (rule reaches.block)
  have "fresh_string (stream (CHR 0x0A # ?line)) = (''Arg'', stream (drop 3 ?line))"
    and "ok (stream (drop 3 ?line))"
    and "arg_line ?kfa (stream (drop 3 ?line)) = Inr (?kfb, stream (CHR 0x0A # ?blockg))"
    by code_simp+
  with p1 have p2: "reaches (Some ?txt) (AtArg Map.empty ?kfb (stream (CHR 0x0A # ?blockg)))"
    by (rule reaches.arg)
  have "fresh_string (stream (CHR 0x0A # ?blockg)) = (''Function'', stream (drop 8 ?blockg))"
    by code_simp
  with p2 have p3: "reaches (Some ?txt) (AtBlock [funcName ?kfb \<mapsto> ?kfb] (stream (drop 8 ?blockg)))"
    by (rule reaches.close) simp
  have "ok (stream (drop 8 ?blockg))"
    and "header (stream (drop 8 ?blockg)) = Some (Inr (?kga, stream (CHR 0x0A # ?tail)))"
    by code_simp+
  with p3 have p4: "reaches (Some ?txt) (AtArg [funcName ?kfb \<mapsto> ?kfb] ?kga (stream (CHR 0x0A # ?tail)))"
    by (rule reaches.block)
  have "fresh_string (stream (CHR 0x0A # ?tail)) = (''Argument'', stream (drop 8 ?tail))"
    and "ok (stream (drop 8 ?tail))"
    by code_simp+
  with p4 have "MemRedAnalysisParser (Some ?txt) = Inl Abort"
    by (rule unexpected_keyword_aborts) simp_all
  then show ?thesis by simp
qed

text \<open>
  C6. When the nodes before node \<open>u\<close> have been annotated without a failure and the name
  \<open>s\<close> that the runtime resolves for \<open>u\<close> has no entry in the table, the annotation of
  \<open>u\<close> prints its \<^verbatim>\<open>Node\<close> line and fails with \<^verbatim>\<open>Could not find kernel\<close> carrying
  \<open>s\<close>, and this is how \<^verbatim>\<open>analyzeGraph\<close> ends, after the output of the earlier nodes.
\<close>

theorem unknown_kernel_stops:
  assumes "MemRedAnalysisParser file = Inr table"
    and "cudaGraphGetNodes rt = Inr (pre @ u # post)"
    and "analyze_nodes table rt 0 pre = (out, None)"
    and "cudaGraphKernelNodeGetParams rt u = Inr params"
    and "cudaFuncGetName rt (func params) = Inr s"
    and "table s = None"
  shows "analyze_node table rt (length pre) u =
           ([NodeLine (length pre)], Some (CouldNotFindKernel s)) \<and>
         analyzeGraph file rt = (out @ [NodeLine (length pre)], Some (CouldNotFindKernel s))"
proof
  show n: "analyze_node table rt (length pre) u =
           ([NodeLine (length pre)], Some (CouldNotFindKernel s))"
    using assms(4-6) by (rule analyze_node_unknown)
  have "analyze_nodes table rt 0 (pre @ u # post) =
        (case analyze_nodes table rt (0 + length pre) (u # post) of
           (out', r) \<Rightarrow> (out @ out', r))"
    using assms(3) by (rule analyze_nodes_append)
  then have "analyze_nodes table rt 0 (pre @ u # post) =
             (out @ [NodeLine (length pre)], Some (CouldNotFindKernel s))"
    using n by simp
  then show "analyzeGraph file rt =
             (out @ [NodeLine (length pre)], Some (CouldNotFindKernel s))"
    using assms(1,2) by (simp add: analyzeGraph_def)
qed

text \<open>C6 on the example with a second node, for a kernel \<^verbatim>\<open>bar\<close>.\<close>

theorem unknown_kernel_stops_witness:
  "analyzeGraph (Some example_report) (example_runtime [0, 1]) =
     ([NodeLine 0, FuncNameLine ''foo'', ArgLine 3 ''ReadOnly'' (Pointer 0x7000), NodeLine 1],
      Some (CouldNotFindKernel ''bar''))"
proof -
  have "analyze_nodes example_table (example_runtime [0, 1]) 0 [0] =
        ([NodeLine 0, FuncNameLine ''foo'', ArgLine 3 ''ReadOnly'' (Pointer 0x7000)], None)"
    by (simp add: example_table_def example_runtime_def analyze_node_def kernel_param_def)
  then show ?thesis
    using unknown_kernel_stops [of "Some example_report" example_table "example_runtime [0, 1]"
        "[0]" 1 "[]" _ "\<lparr>func = 1, kernelParams = [0x100, 0x104, 0x108, 0x110, 0x118]\<rparr>"
        "''bar''"]
    by (simp add: example_report_table example_runtime_def example_table_def)
qed

text \<open>
  C7. Whenever the parser is at the head of the block loop and finds an \<^verbatim>\<open>@\<close>, let
  \<open>tok\<close> be the token read after it (empty when nothing could be read). If \<open>tok\<close> has
  fewer than 2 characters, the constructor fails with the \<^verbatim>\<open>std::out_of_range\<close> of
  \<^verbatim>\<open>erase\<close>. If it has at least 2 (and fewer than \<open>2 ^ 64\<close>, as every
  \<^verbatim>\<open>std::string\<close> has), the block's name is \<open>tok\<close> without its last two characters,
  and this is the key under which the block is stored when its argument lines have been
  read.
\<close>

theorem name_token_erase:
  assumes "reaches file (AtBlock m s)" and "ok s" and "ok (find_at s)"
    and "fresh_string (find_at s) = (tok, s2)"
  shows "(length tok < 2 \<longrightarrow> MemRedAnalysisParser file = Inl OutOfRange) \<and>
         (2 \<le> length tok \<and> length tok < 2 ^ 64 \<longrightarrow>
            (\<exists>k s'. header s = Some (Inr (k, s')) \<and> funcName k = take (length tok - 2) tok \<and>
               (\<forall>k' s''. read_args k s' = Inr (k', s'') \<longrightarrow>
                  MemRedAnalysisParser file =
                    parse_loop (m(take (length tok - 2) tok \<mapsto> k')) s'')))"
proof (intro conjI impI)
  assume short: "length tok < 2"
  then have "erase tok (string_size tok - 2) = Inl OutOfRange"
    by (rule erase_short)
  then have "header s = Some (Inl OutOfRange)"
    using assms(3,4) by (simp add: header_def)
  then have "parse_loop m s = Inl OutOfRange"
    using assms(2) by (subst parse_loop.simps) simp
  then show "MemRedAnalysisParser file = Inl OutOfRange"
    using reaches_outcome [OF assms(1)] by simp
next
  assume long: "2 \<le> length tok \<and> length tok < 2 ^ 64"
  let ?key = "take (length tok - 2) tok"
  have e: "erase tok (string_size tok - 2) = Inr ?key"
    using long by (intro erase_long) simp_all
  obtain eff s5 where eff: "fresh_string (ignore (ignore s2)) = (eff, s5)"
    by (cases "fresh_string (ignore (ignore s2))")
  let ?k = "\<lparr>funcName = ?key, memoryEffect = eff, ptrArgInfos = []\<rparr>"
  have h: "header s = Some (Inr (?k, s5))"
    using assms(3,4) e eff by (simp add: header_def)
  have "MemRedAnalysisParser file = parse_loop (m(?key \<mapsto> k')) s''"
    if "read_args ?k s5 = Inr (k', s'')" for k' s''
  proof -
    have "funcName k' = ?key"
      using read_args_funcName [OF that] by simp
    moreover have "MemRedAnalysisParser file = outcome (AtArg m ?k s5)"
      using assms(1,2) h by (intro reaches_outcome reaches.block)
    ultimately show ?thesis using that by simp
  qed
  with h show "\<exists>k s'. header s = Some (Inr (k, s')) \<and> funcName k = ?key \<and>
      (\<forall>k' s''. read_args k s' = Inr (k', s'') \<longrightarrow>
         MemRedAnalysisParser file = parse_loop (m(?key \<mapsto> k')) s'')"
    by (intro exI [of _ ?k] exI [of _ s5]) simp
qed

text \<open>C7 on a report that ends after \<^verbatim>\<open>@:\<close>, and on one whose name token is \<^verbatim>\<open>_Z1fPi):\<close>.\<close>

theorem name_token_erase_witness:
  "MemRedAnalysisParser (Some ''Function f (@:'') = Inl OutOfRange \<and>
   MemRedAnalysisParser (Some ''Function f (@_Z1fPi): Memory Effect: ArgMemOnly'') =
     Inr [''_Z1fPi'' \<mapsto>
            \<lparr>funcName = ''_Z1fPi'', memoryEffect = ''ArgMemOnly'', ptrArgInfos = []\<rparr>]"
proof
  let ?txt = "''Function f (@:''"
  have "reaches (Some ?txt) (AtBlock Map.empty (ifstream (Some ?txt)))"
    by (rule reaches.start)
  moreover have "ok (ifstream (Some ?txt))" and "ok (find_at (ifstream (Some ?txt)))"
    and "fresh_string (find_at (ifstream (Some ?txt))) =
         ('':'', \<lparr>buf = [], eofbit = True, failbit = False\<rparr>)"
    by code_simp+
  ultimately show "MemRedAnalysisParser (Some ?txt) = Inl OutOfRange"
    using name_token_erase [of "Some ?txt" Map.empty "ifstream (Some ?txt)" "'':''"
        "\<lparr>buf = [], eofbit = True, failbit = False\<rparr>"]
    by simp
next
  let ?txt = "''Function f (@_Z1fPi): Memory Effect: ArgMemOnly''"
  let ?k = "\<lparr>funcName = ''_Z1fPi'', memoryEffect = ''ArgMemOnly'', ptrArgInfos = []\<rparr>"
  let ?end = "\<lparr>buf = [], eofbit = True, failbit = False\<rparr>"
  let ?failed = "\<lparr>buf = [], eofbit = True, failbit = True\<rparr>"
  have "reaches (Some ?txt) (AtBlock Map.empty (ifstream (Some ?txt)))"
    by (rule reaches.start)
  moreover have "ok (ifstream (Some ?txt))" and "ok (find_at (ifstream (Some ?txt)))"
    and "fresh_string (find_at (ifstream (Some ?txt))) =
         (''_Z1fPi):'', stream '' Memory Effect: ArgMemOnly'')"
    by code_simp+
  ultimately obtain k s' where h: "header (ifstream (Some ?txt)) = Some (Inr (k, s'))"
    and key: "\<forall>k' s''. read_args k s' = Inr (k', s'') \<longrightarrow>
        MemRedAnalysisParser (Some ?txt) = parse_loop [''_Z1fPi'' \<mapsto> k'] s''"
    using name_token_erase [of "Some ?txt" Map.empty "ifstream (Some ?txt)" "''_Z1fPi):''"
        "stream '' Memory Effect: ArgMemOnly''"]
    by auto
  have "header (ifstream (Some ?txt)) = Some (Inr (?k, ?end))"
    by code_simp
  with h have "k = ?k" and "s' = ?end"
    by simp_all
  moreover have "read_args ?k ?end = Inr (?k, ?failed)"
    by code_simp
  ultimately have "MemRedAnalysisParser (Some ?txt) = parse_loop [''_Z1fPi'' \<mapsto> ?k] ?failed"
    using key by simp
  then show "MemRedAnalysisParser (Some ?txt) = Inr [''_Z1fPi'' \<mapsto> ?k]"
    by (simp add: parse_loop_failed ok_def)
qed










end
